theory Spec2Isabelle
  imports Main "HOL-Library.Multiset"
begin

section \<open>Geometry, directions and hit values\<close>

text \<open>
  The game engine of \<^verbatim>\<open>battleship.py\<close>. Python integers are \<^typ>\<open>int\<close>, a position
  is a pair (row, column), a list is a list. A method that mutates its object takes the
  object and returns the updated one; an exception is a value of \<open>py_error\<close> on the left
  of a sum.
\<close>

type_synonym pos = "int \<times> int"

datatype py_error = IndexError | ValueError | AttributeError | TypeError

datatype Direction = UP | DOWN | LEFT | RIGHT

fun rotate_clockwise :: "Direction \<Rightarrow> Direction" where
  "rotate_clockwise UP = RIGHT"
| "rotate_clockwise RIGHT = DOWN"
| "rotate_clockwise DOWN = LEFT"
| "rotate_clockwise LEFT = UP"

definition pos_in_bounds :: "pos \<Rightarrow> int \<times> int \<Rightarrow> int \<times> int \<Rightarrow> bool" where
  "pos_in_bounds p bounds_y bounds_x =
     (fst p > fst bounds_y \<and> fst p < snd bounds_y \<and> snd p > fst bounds_x \<and> snd p < snd bounds_x)"

datatype HitType = MISS | HIT | SUNK

record Hit =
  target_position :: pos
  hit_type :: HitType
  character :: string
  ship_positions :: "pos list"

definition Hit_miss :: "pos \<Rightarrow> Hit" where
  "Hit_miss target_pos =
     \<lparr>target_position = target_pos, hit_type = MISS, character = ''O'', ship_positions = []\<rparr>"

definition Hit_hit :: "pos \<Rightarrow> Hit" where
  "Hit_hit target_pos =
     \<lparr>target_position = target_pos, hit_type = HIT, character = ''X'', ship_positions = []\<rparr>"

definition Hit_sunk :: "pos \<Rightarrow> string \<Rightarrow> pos list \<Rightarrow> Hit" where
  "Hit_sunk target_pos ship_char ps =
     \<lparr>target_position = target_pos, hit_type = SUNK, character = ship_char, ship_positions = ps\<rparr>"

section \<open>Ships\<close>

datatype ShipType = PatrolBoat | Submarine | Destroyer | Battleship | Carrier

fun ShipType_value :: "ShipType \<Rightarrow> string" where
  "ShipType_value PatrolBoat = ''P''"
| "ShipType_value Submarine = ''S''"
| "ShipType_value Destroyer = ''D''"
| "ShipType_value Battleship = ''B''"
| "ShipType_value Carrier = ''C''"

fun size_of :: "ShipType \<Rightarrow> nat" where
  "size_of PatrolBoat = 2"
| "size_of Submarine = 3"
| "size_of Destroyer = 3"
| "size_of Battleship = 4"
| "size_of Carrier = 5"

text \<open>
  The fields of \<^verbatim>\<open>Ship\<close>. The field \<^verbatim>\<open>size\<close> is called \<open>ship_size\<close> here, since
  \<open>size\<close> is a constant of HOL.
\<close>

record Ship =
  ship_type :: ShipType
  ship_size :: nat
  hits :: "bool list"
  start_pos :: pos
  rotation :: Direction
  bounds_y :: "int \<times> int"
  bounds_x :: "int \<times> int"
  positions :: "pos list"

definition generate_positions :: "pos \<Rightarrow> Direction \<Rightarrow> nat \<Rightarrow> pos list" where
  "generate_positions start rot sz =
     map (\<lambda>i. case start of (y, x) \<Rightarrow>
            (if rot = RIGHT then (y, x + int i)
             else if rot = LEFT then (y, x - int i)
             else if rot = UP then (y - int i, x)
             else (y + int i, x)))
         [0..<sz]"

text \<open>
  \<^verbatim>\<open>in_bounds\<close> reads \<^verbatim>\<open>positions[0]\<close> and \<^verbatim>\<open>positions[-1]\<close>: on an empty list
  Python raises IndexError.
\<close>

definition in_bounds :: "Ship \<Rightarrow> py_error + bool" where
  "in_bounds s =
     (if positions s = [] then Inl IndexError
      else Inr (pos_in_bounds (hd (positions s)) (bounds_y s) (bounds_x s)
              \<and> pos_in_bounds (last (positions s)) (bounds_y s) (bounds_x s)))"

text \<open>\<^verbatim>\<open>update_positions\<close> returns the updated ship together with its boolean result.\<close>

definition update_positions :: "Ship \<Rightarrow> pos \<Rightarrow> py_error + (Ship \<times> bool)" where
  "update_positions s p =
     (let old_positions = positions s;
          s1 = s\<lparr>positions := generate_positions p (rotation s) (ship_size s)\<rparr>
      in case in_bounds s1 of
           Inl e \<Rightarrow> Inl e
         | Inr ok \<Rightarrow>
             if \<not> ok then Inr (s1\<lparr>positions := old_positions\<rparr>, False)
             else Inr (s1\<lparr>start_pos := p\<rparr>, True))"

definition Ship_init ::
  "ShipType \<Rightarrow> pos \<Rightarrow> Direction \<Rightarrow> int \<times> int \<Rightarrow> int \<times> int \<Rightarrow> py_error + Ship" where
  "Ship_init t p rot by bx =
     (case update_positions
             \<lparr>ship_type = t, ship_size = size_of t, hits = replicate (size_of t) False,
              start_pos = p, rotation = rot, bounds_y = by, bounds_x = bx, positions = []\<rparr>
             p of
        Inl e \<Rightarrow> Inl e
      | Inr (s, _) \<Rightarrow> Inr s)"

text \<open>
  The start position that \<^verbatim>\<open>move\<close> hands to \<^verbatim>\<open>update_positions\<close>: one cell from
  \<open>start_pos\<close> in the direction.
\<close>

definition moved_start :: "pos \<Rightarrow> Direction \<Rightarrow> pos" where
  "moved_start p direction =
     (if direction = RIGHT then (fst p, snd p + 1)
      else if direction = LEFT then (fst p, snd p - 1)
      else if direction = UP then (fst p - 1, snd p)
      else (fst p + 1, snd p))"

definition move :: "Ship \<Rightarrow> Direction \<Rightarrow> py_error + Ship" where
  "move s direction =
     (case update_positions s (moved_start (start_pos s) direction) of
        Inl e \<Rightarrow> Inl e
      | Inr (s1, _) \<Rightarrow> Inr s1)"

text \<open>
  The loop of \<^verbatim>\<open>rotate\<close> has no bound in the source, so it is a partial function:
  \<open>None\<close> is the run that never returns.
\<close>

partial_function (option) rotate_loop :: "Ship \<Rightarrow> (py_error + Ship) option" where
  "rotate_loop s =
     (case update_positions s (start_pos s) of
        Inl e \<Rightarrow> Some (Inl e)
      | Inr (s1, ok) \<Rightarrow>
          if \<not> ok then rotate_loop (s1\<lparr>rotation := rotate_clockwise (rotation s1)\<rparr>)
          else Some (Inr s1))"

definition rotate :: "Ship \<Rightarrow> (py_error + Ship) option" where
  "rotate s = rotate_loop (s\<lparr>rotation := rotate_clockwise (rotation s)\<rparr>)"

text \<open>\<^verbatim>\<open>rotate\<close> called \<open>n\<close> times in succession.\<close>

fun rotate_times :: "nat \<Rightarrow> Ship \<Rightarrow> (py_error + Ship) option" where
  "rotate_times 0 s = Some (Inr s)"
| "rotate_times (Suc n) s =
     (case rotate s of
        None \<Rightarrow> None
      | Some (Inl e) \<Rightarrow> Some (Inl e)
      | Some (Inr s1) \<Rightarrow> rotate_times n s1)"

text \<open>
  The bounds test that \<^verbatim>\<open>update_positions\<close> makes on the positions generated from the
  ship's start position, for the rotation \<open>d\<close>: \<open>orientation_fits\<close> when it passes.
\<close>

definition orientation_test :: "Ship \<Rightarrow> Direction \<Rightarrow> py_error + bool" where
  "orientation_test s d =
     in_bounds (s\<lparr>positions := generate_positions (start_pos s) d (ship_size s)\<rparr>)"

definition orientation_fits :: "Ship \<Rightarrow> Direction \<Rightarrow> bool" where
  "orientation_fits s d = (orientation_test s d = Inr True)"

text \<open>
  The ship after a successful \<^verbatim>\<open>update_positions(self.start_pos)\<close> with rotation \<open>d\<close>.
\<close>

definition turned :: "Ship \<Rightarrow> Direction \<Rightarrow> Ship" where
  "turned s d = s\<lparr>rotation := d, positions := generate_positions (start_pos s) d (ship_size s)\<rparr>"

text \<open>
  The rotation in which the loop of \<^verbatim>\<open>rotate\<close> stops when it starts from rotation \<open>d\<close>:
  the first of the four rotations after \<open>d\<close>, clockwise, whose bounds test passes
  (lemma \<open>rotate_eq\<close>).
\<close>

definition next_fit :: "Ship \<Rightarrow> Direction \<Rightarrow> Direction option" where
  "next_fit s d =
     (let d1 = rotate_clockwise d; d2 = rotate_clockwise d1; d3 = rotate_clockwise d2;
          d4 = rotate_clockwise d3
      in if orientation_fits s d1 then Some d1
         else if orientation_fits s d2 then Some d2
         else if orientation_fits s d3 then Some d3
         else if orientation_fits s d4 then Some d4
         else None)"

text \<open>The rotation after \<open>n\<close> calls of \<^verbatim>\<open>rotate\<close> that start from rotation \<open>d\<close>.\<close>

fun fit_iter :: "Ship \<Rightarrow> nat \<Rightarrow> Direction \<Rightarrow> Direction option" where
  "fit_iter s 0 d = Some d"
| "fit_iter s (Suc n) d =
     (case next_fit s d of None \<Rightarrow> None | Some d1 \<Rightarrow> fit_iter s n d1)"

text \<open>
  \<^verbatim>\<open>check_hit\<close> walks \<^verbatim>\<open>enumerate(self.positions)\<close>; the walk is \<open>check_hit_from\<close>,
  with the index of the next position. \<^verbatim>\<open>self.hits[i] = is_missile\<close> raises IndexError
  when \<open>i\<close> is not an index of \<open>hits\<close>.
\<close>

fun check_hit_from :: "pos list \<Rightarrow> nat \<Rightarrow> Ship \<Rightarrow> pos \<Rightarrow> bool \<Rightarrow> py_error + (Ship \<times> Hit)" where
  "check_hit_from [] i s hit_pos is_missile = Inr (s, Hit_miss hit_pos)"
| "check_hit_from (p # ps) i s hit_pos is_missile =
     (if p = hit_pos then
        (if i < length (hits s) then
           (let s1 = s\<lparr>hits := (hits s)[i := is_missile]\<rparr>
            in if is_missile \<and> list_all (\<lambda>b. b) (hits s1)
               then Inr (s1, Hit_sunk hit_pos (ShipType_value (ship_type s1)) (positions s1))
               else Inr (s1, Hit_hit hit_pos))
         else Inl IndexError)
      else check_hit_from ps (Suc i) s hit_pos is_missile)"

definition Ship_check_hit :: "Ship \<Rightarrow> pos \<Rightarrow> bool \<Rightarrow> py_error + (Ship \<times> Hit)" where
  "Ship_check_hit s hit_pos is_missile = check_hit_from (positions s) 0 s hit_pos is_missile"

text \<open>
  The states of a ship from its construction on: the constructor, at a placement that
  passes the bounds test, and then any of \<^verbatim>\<open>move\<close>, \<^verbatim>\<open>rotate\<close> and \<^verbatim>\<open>check_hit\<close> that
  returns.
\<close>

inductive Ship_lifetime :: "Ship \<Rightarrow> bool" where
  constructed:
    "Ship_init t p d by bx = Inr s \<Longrightarrow> orientation_fits s d \<Longrightarrow> Ship_lifetime s"
| moved: "Ship_lifetime s \<Longrightarrow> move s d = Inr s1 \<Longrightarrow> Ship_lifetime s1"
| rotated: "Ship_lifetime s \<Longrightarrow> rotate s = Some (Inr s1) \<Longrightarrow> Ship_lifetime s1"
| checked: "Ship_lifetime s \<Longrightarrow> Ship_check_hit s hp m = Inr (s1, h) \<Longrightarrow> Ship_lifetime s1"

section \<open>Fleets\<close>

text \<open>
  A \<^verbatim>\<open>Fleet\<close> holds the list \<^verbatim>\<open>ships\<close> only, so it is that list. \<^verbatim>\<open>check_hit\<close>
  returns the fleet with the consulted ships updated, and the hit.
\<close>

type_synonym Fleet = "Ship list"

definition add_ship :: "Fleet \<Rightarrow> Ship \<Rightarrow> Fleet" where
  "add_ship ships ship = ships @ [ship]"

fun Fleet_check_hit :: "Fleet \<Rightarrow> pos \<Rightarrow> bool \<Rightarrow> py_error + (Fleet \<times> Hit)" where
  "Fleet_check_hit [] hit_pos is_missile = Inr ([], Hit_miss hit_pos)"
| "Fleet_check_hit (ship # ships) hit_pos is_missile =
     (case Ship_check_hit ship hit_pos is_missile of
        Inl e \<Rightarrow> Inl e
      | Inr (ship1, hit_object) \<Rightarrow>
          if hit_type hit_object \<noteq> MISS then Inr (ship1 # ships, hit_object)
          else (case Fleet_check_hit ships hit_pos is_missile of
                  Inl e \<Rightarrow> Inl e
                | Inr (ships1, h) \<Rightarrow> Inr (ship1 # ships1, h)))"

section \<open>Opponent strategies\<close>

text \<open>
  The three subclasses of \<^verbatim>\<open>AI\<close> are the constructors of one datatype. The field
  \<^verbatim>\<open>fleet\<close> of an AI is \<open>ai_fleet\<close> here (the manager has a field of that name too); it is
  \<open>None\<close> until \<^verbatim>\<open>place_ships\<close> has run. The reference to the manager is replaced by the
  values an operation reads from it.
\<close>

datatype AI =
    CopyCatAI (ai_fleet: "Fleet option") (last_player_move: "pos option")
  | CopyCatWithRandomMissilesAI (ai_fleet: "Fleet option") (possible_moves: "pos list")
  | OmniscientAI (ai_fleet: "Fleet option")

datatype AIType = CopyCat | CopyCatWithRandomMissiles | Omniscient

text \<open>\<^verbatim>\<open>AIType.get_ai(ai_type)(manager)\<close>: the constructor of the chosen class.\<close>

fun get_ai :: "AIType \<Rightarrow> AI" where
  "get_ai CopyCat = CopyCatAI None None"
| "get_ai CopyCatWithRandomMissiles = CopyCatWithRandomMissilesAI None []"
| "get_ai Omniscient = OmniscientAI None"

text \<open>
  \<^verbatim>\<open>initialize\<close> of the random-missiles AI: for every row \<open>i\<close> strictly between the
  player's vertical bounds, \<^verbatim>\<open>zip([i] * bounds_x[1], range(bounds_x[0] + 1, bounds_x[1]))\<close>.
  \<^verbatim>\<open>[i] * n\<close> is empty for \<open>n \<le> 0\<close>, and \<^verbatim>\<open>zip\<close> stops at the shorter list.
\<close>

fun initialize :: "AI \<Rightarrow> int \<times> int \<Rightarrow> int \<times> int \<Rightarrow> AI" where
  "initialize (CopyCatWithRandomMissilesAI f pm) player_bounds_y player_bounds_x =
     CopyCatWithRandomMissilesAI f
       (concat (map (\<lambda>i. zip (replicate (nat (snd player_bounds_x)) i)
                              [fst player_bounds_x + 1..snd player_bounds_x - 1])
                    [fst player_bounds_y + 1..snd player_bounds_y - 1]))"
| "initialize ai player_bounds_y player_bounds_x = ai"

text \<open>\<^verbatim>\<open>place_ships\<close>: a deep copy of the manager's fleet, in all three classes.\<close>

fun place_ships :: "AI \<Rightarrow> Fleet \<Rightarrow> AI" where
  "place_ships (CopyCatAI f l) manager_fleet = CopyCatAI (Some manager_fleet) l"
| "place_ships (CopyCatWithRandomMissilesAI f pm) manager_fleet =
     CopyCatWithRandomMissilesAI (Some manager_fleet) pm"
| "place_ships (OmniscientAI f) manager_fleet = OmniscientAI (Some manager_fleet)"

text \<open>
  The AI after \<^verbatim>\<open>check_hit\<close> has updated the ships of \<^verbatim>\<open>self.fleet\<close> in place.
\<close>

fun set_ai_fleet :: "AI \<Rightarrow> Fleet \<Rightarrow> AI" where
  "set_ai_fleet (CopyCatAI f l) f1 = CopyCatAI (Some f1) l"
| "set_ai_fleet (CopyCatWithRandomMissilesAI f pm) f1 = CopyCatWithRandomMissilesAI (Some f1) pm"
| "set_ai_fleet (OmniscientAI f) f1 = OmniscientAI (Some f1)"

text \<open>
  \<^verbatim>\<open>AI.get_move\<close>: \<^verbatim>\<open>self.fleet.check_hit(move)\<close>, a missile by default. On the fleet
  \<^verbatim>\<open>None\<close> Python raises AttributeError. The ships of the AI's fleet are updated in place.
\<close>

definition AI_get_move :: "AI \<Rightarrow> pos \<Rightarrow> py_error + (AI \<times> Hit)" where
  "AI_get_move a mv =
     (case ai_fleet a of
        None \<Rightarrow> Inl AttributeError
      | Some f \<Rightarrow>
          (case Fleet_check_hit f mv True of
             Inl e \<Rightarrow> Inl e
           | Inr (f1, h) \<Rightarrow> Inr (set_ai_fleet a f1, h)))"

fun get_move :: "AI \<Rightarrow> pos \<Rightarrow> py_error + (AI \<times> Hit)" where
  "get_move (CopyCatAI f l) mv = AI_get_move (CopyCatAI f (Some mv)) mv"
| "get_move a mv = AI_get_move a mv"

text \<open>
  \<^verbatim>\<open>send_move\<close> returns the chosen position, \<open>None\<close> for Python's \<^verbatim>\<open>None\<close>, and the
  updated AI. The value that \<^verbatim>\<open>randint(0, len(self.possible_moves) - 1)\<close> returns is the
  argument \<open>r\<close>; \<^verbatim>\<open>randint\<close> raises ValueError on the empty range, and \<^verbatim>\<open>pop\<close> raises
  IndexError outside the list. The body of \<^verbatim>\<open>OmniscientAI.send_move\<close> is \<^verbatim>\<open>...\<close>.
\<close>

fun send_move :: "AI \<Rightarrow> nat \<Rightarrow> py_error + (pos option \<times> AI)" where
  "send_move (CopyCatAI f l) r = Inr (l, CopyCatAI f l)"
| "send_move (CopyCatWithRandomMissilesAI f pm) r =
     (if length pm = 0 then Inl ValueError
      else if r < length pm
           then Inr (Some (pm ! r), CopyCatWithRandomMissilesAI f (take r pm @ drop (Suc r) pm))
           else Inl IndexError)"
| "send_move (OmniscientAI f) r = Inr (None, OmniscientAI f)"

text \<open>
  The values \<^verbatim>\<open>randint(0, n - 1)\<close> can return on successive calls, while each call
  removes one of the \<open>n\<close> remaining moves.
\<close>

fun draws_in_range :: "nat \<Rightarrow> nat list \<Rightarrow> bool" where
  "draws_in_range n [] = True"
| "draws_in_range n (r # rs) = (r < n \<and> draws_in_range (n - 1) rs)"

text \<open>Successive calls of \<^verbatim>\<open>send_move\<close>, with the positions they return.\<close>

fun send_moves :: "AI \<Rightarrow> nat list \<Rightarrow> py_error + (pos option list \<times> AI)" where
  "send_moves a [] = Inr ([], a)"
| "send_moves a (r # rs) =
     (case send_move a r of
        Inl e \<Rightarrow> Inl e
      | Inr (out, a1) \<Rightarrow>
          (case send_moves a1 rs of
             Inl e \<Rightarrow> Inl e
           | Inr (outs, a2) \<Rightarrow> Inr (out # outs, a2)))"

text \<open>
  Calls that alternate: \<^verbatim>\<open>get_move\<close> with an incoming shot, then \<^verbatim>\<open>send_move\<close>, as the
  engine makes them in \<^verbatim>\<open>__fire_missile\<close> and \<^verbatim>\<open>__opponents_turn\<close>; with the positions
  that \<^verbatim>\<open>send_move\<close> returns.
\<close>

fun alternate_moves :: "AI \<Rightarrow> (pos \<times> nat) list \<Rightarrow> py_error + (pos option list \<times> AI)" where
  "alternate_moves a [] = Inr ([], a)"
| "alternate_moves a ((mv, r) # rest) =
     (case get_move a mv of
        Inl e \<Rightarrow> Inl e
      | Inr (a1, h) \<Rightarrow>
          (case send_move a1 r of
             Inl e \<Rightarrow> Inl e
           | Inr (out, a2) \<Rightarrow>
               (case alternate_moves a2 rest of
                  Inl e \<Rightarrow> Inl e
                | Inr (outs, a3) \<Rightarrow> Inr (out # outs, a3))))"

section \<open>The turn engine\<close>

datatype GameState = SETUP | READY | PLAYING | PLAYER_WON | OPPONENT_WON

text \<open>
  The fields of \<^verbatim>\<open>Manager\<close> that the game logic reads, with the two fields of its
  \<^verbatim>\<open>LocalPlayer\<close> (\<^verbatim>\<open>players_turn\<close> and \<^verbatim>\<open>ai\<close>). The screen is left out: the calls
  on \<^verbatim>\<open>stdscr\<close> draw and read keys, and change no field.
\<close>

record Manager =
  player_board_center :: pos
  player_bounds_y :: "int \<times> int"
  player_bounds_x :: "int \<times> int"
  opponent_board_center :: pos
  opponent_bounds_y :: "int \<times> int"
  opponent_bounds_x :: "int \<times> int"
  game_state :: GameState
  guesses :: "(pos \<times> Hit) list"
  fleet :: Fleet
  player_ships_left :: int
  opponent_ships_left :: int
  players_turn :: bool
  ai :: AI

text \<open>
  \<^verbatim>\<open>__initialize\<close> for a local player, after \<^verbatim>\<open>LocalPlayer.__init__\<close> and
  \<^verbatim>\<open>set_manager\<close>. The bounds are those of \<^verbatim>\<open>__set_bounds\<close>, from the centre of the
  window: the board is 40 columns wide and 20 rows high, and \<^verbatim>\<open>len(ShipType)\<close> is 5.
\<close>

definition Manager_initialize :: "pos \<Rightarrow> AIType \<Rightarrow> Manager" where
  "Manager_initialize window_center ai_type =
     (let half_width = 20; half_height = 10;
          bx = (snd window_center - half_width, snd window_center + half_width);
          by = (fst window_center - half_height, fst window_center + half_height);
          pbx = (fst bx, snd window_center)
      in \<lparr>player_board_center = (fst window_center, snd window_center - 10),
          player_bounds_y = (fst by, snd by),
          player_bounds_x = pbx,
          opponent_board_center = (fst window_center, snd window_center + 10),
          opponent_bounds_y = (fst by, snd by),
          opponent_bounds_x = (snd window_center, snd bx),
          game_state = SETUP,
          guesses = [],
          fleet = [],
          player_ships_left = 5,
          opponent_ships_left = 5,
          players_turn = True,
          ai = initialize (get_ai ai_type) (fst by, snd by) pbx\<rparr>)"

text \<open>\<^verbatim>\<open>__ready\<close> with \<^verbatim>\<open>LocalPlayer.ready\<close>: the AI copies the fleet.\<close>

definition ready :: "Manager \<Rightarrow> Manager" where
  "ready m = m\<lparr>ai := place_ships (ai m) (fleet m), game_state := PLAYING\<rparr>"

definition check_game_over :: "Manager \<Rightarrow> Manager" where
  "check_game_over m =
     (if opponent_ships_left m = 0 then m\<lparr>game_state := PLAYER_WON\<rparr>
      else if player_ships_left m = 0 then m\<lparr>game_state := OPPONENT_WON\<rparr>
      else m)"

fun get_previous_guess_result :: "(pos \<times> Hit) list \<Rightarrow> pos \<Rightarrow> string option" where
  "get_previous_guess_result [] target = None"
| "get_previous_guess_result ((p, h) # gs) target =
     (if target = p then Some (character h) else get_previous_guess_result gs target)"

text \<open>
  The inner loop of \<^verbatim>\<open>__reveal_sunk_ship\<close>: the first guess at the position is replaced.
\<close>

fun replace_guess :: "(pos \<times> Hit) list \<Rightarrow> pos \<Rightarrow> Hit \<Rightarrow> (pos \<times> Hit) list" where
  "replace_guess [] offset_hit_pos hit = []"
| "replace_guess ((p, h) # gs) offset_hit_pos hit =
     (if offset_hit_pos = p then (offset_hit_pos, hit) # gs
      else (p, h) # replace_guess gs offset_hit_pos hit)"

definition reveal_sunk_ship :: "Manager \<Rightarrow> Hit \<Rightarrow> Manager" where
  "reveal_sunk_ship m hit =
     m\<lparr>guesses :=
         foldl (\<lambda>gs hit_pos.
                  let offset = snd (player_board_center m) - snd hit_pos;
                      offset_hit_pos = (fst hit_pos, snd (opponent_board_center m) - offset)
                  in replace_guess gs offset_hit_pos hit)
               (guesses m) (ship_positions hit)\<rparr>"

text \<open>The position that \<^verbatim>\<open>__fire_missile\<close> hands to the opponent, on the player's side.\<close>

definition offset_target_pos :: "Manager \<Rightarrow> pos \<Rightarrow> pos" where
  "offset_target_pos m target_pos =
     (let offset = snd (opponent_board_center m) - snd target_pos
      in (fst target_pos, snd (player_board_center m) - offset))"

text \<open>\<^verbatim>\<open>__fire_missile\<close>, with \<^verbatim>\<open>LocalPlayer.send_move\<close>, which is the AI's \<^verbatim>\<open>get_move\<close>.\<close>

definition fire_missile :: "Manager \<Rightarrow> pos \<Rightarrow> py_error + Manager" where
  "fire_missile m target_pos =
     (case get_move (ai m) (offset_target_pos m target_pos) of
        Inl e \<Rightarrow> Inl e
      | Inr (ai1, hit) \<Rightarrow>
          (let m1 = m\<lparr>ai := ai1, guesses := guesses m @ [(target_pos, hit)]\<rparr>
           in if hit_type hit = SUNK
              then (let m2 = reveal_sunk_ship m1 hit;
                        m3 = m2\<lparr>opponent_ships_left := opponent_ships_left m2 - 1\<rparr>
                    in Inr (check_game_over m3))
              else Inr m1))"

text \<open>
  \<^verbatim>\<open>__take_turn\<close> moves a cursor inside the opponent's bounds and leaves its loop only
  when space is pressed on a cell that has no previous guess: \<open>target_pos\<close> is that cell.
\<close>

definition take_turn :: "Manager \<Rightarrow> pos \<Rightarrow> py_error + Manager" where
  "take_turn m target_pos =
     (case fire_missile m target_pos of
        Inl e \<Rightarrow> Inl e
      | Inr m1 \<Rightarrow> Inr (m1\<lparr>players_turn := False\<rparr>))"

text \<open>
  \<^verbatim>\<open>__opponents_turn\<close>, with \<^verbatim>\<open>LocalPlayer.listen_for_move\<close>: the AI's move is checked
  against the manager's fleet. When the move is \<^verbatim>\<open>None\<close> no position equals it, the hit is
  a miss whose target is \<^verbatim>\<open>None\<close>, and \<^verbatim>\<open>hit.target_position[0]\<close> raises TypeError.
\<close>

definition opponents_turn :: "Manager \<Rightarrow> nat \<Rightarrow> py_error + Manager" where
  "opponents_turn m r =
     (case send_move (ai m) r of
        Inl e \<Rightarrow> Inl e
      | Inr (ai_move, ai1) \<Rightarrow>
          (case ai_move of
             None \<Rightarrow> Inl TypeError
           | Some p \<Rightarrow>
               (case Fleet_check_hit (fleet m) p True of
                  Inl e \<Rightarrow> Inl e
                | Inr (fleet1, hit) \<Rightarrow>
                    (let m1 = m\<lparr>ai := ai1, fleet := fleet1, players_turn := True\<rparr>
                     in if hit_type hit = SUNK then Inr (check_game_over m1) else Inr m1))))"

text \<open>
  The iterations of \<^verbatim>\<open>__loop\<close> in the state \<^verbatim>\<open>PLAYING\<close>: each takes the cell the player
  fires at when it is the player's turn, and the value of \<^verbatim>\<open>randint\<close> when it is the
  opponent's. In a terminal state \<^verbatim>\<open>__game_over\<close> only displays the status.
\<close>

fun play :: "Manager \<Rightarrow> (pos \<times> nat) list \<Rightarrow> py_error + Manager" where
  "play m [] = Inr m"
| "play m ((target_pos, r) # inputs) =
     (if game_state m = PLAYING then
        (case (if players_turn m then take_turn m target_pos else opponents_turn m r) of
           Inl e \<Rightarrow> Inl e
         | Inr m1 \<Rightarrow> play m1 inputs)
      else Inr m)"

section \<open>Example data\<close>

text \<open>
  The destroyer of the example scenario: start (5, 5), facing right, on a board whose
  bounds are (0, 10) both ways, with the given damage flags.
\<close>

definition scenario_destroyer :: "bool list \<Rightarrow> Ship" where
  "scenario_destroyer flags =
     \<lparr>ship_type = Destroyer, ship_size = 3, hits = flags, start_pos = (5, 5), rotation = RIGHT,
      bounds_y = (0, 10), bounds_x = (0, 10), positions = [(5, 5), (5, 6), (5, 7)]\<rparr>"

definition scenario_patrol_boat :: Ship where
  "scenario_patrol_boat =
     \<lparr>ship_type = PatrolBoat, ship_size = 2, hits = [False, False], start_pos = (3, 5),
      rotation = RIGHT, bounds_y = (0, 10), bounds_x = (0, 10), positions = [(3, 5), (3, 6)]\<rparr>"

definition scenario_submarine :: Ship where
  "scenario_submarine =
     \<lparr>ship_type = Submarine, ship_size = 3, hits = [False, False, False], start_pos = (5, 7),
      rotation = DOWN, bounds_y = (0, 10), bounds_x = (0, 10),
      positions = [(5, 7), (6, 7), (7, 7)]\<rparr>"

text \<open>
  A destroyer in the top row of that board, facing right: facing up it would leave the
  board. A destroyer constructed in the top left corner facing up, and one constructed
  outside the board: both constructions fail the bounds test.
\<close>

definition top_row_destroyer :: Ship where
  "top_row_destroyer =
     \<lparr>ship_type = Destroyer, ship_size = 3, hits = [False, False, False], start_pos = (1, 5),
      rotation = RIGHT, bounds_y = (0, 10), bounds_x = (0, 10),
      positions = [(1, 5), (1, 6), (1, 7)]\<rparr>"

definition corner_destroyer :: Ship where
  "corner_destroyer =
     \<lparr>ship_type = Destroyer, ship_size = 3, hits = [False, False, False], start_pos = (1, 1),
      rotation = UP, bounds_y = (0, 10), bounds_x = (0, 10), positions = []\<rparr>"

definition outside_destroyer :: Ship where
  "outside_destroyer =
     \<lparr>ship_type = Destroyer, ship_size = 3, hits = [False, False, False], start_pos = (0, 0),
      rotation = RIGHT, bounds_y = (0, 10), bounds_x = (0, 10), positions = []\<rparr>"

text \<open>
  A fleet in which the destroyer, hit once already, and the submarine both occupy (5, 7).
\<close>

definition scenario_fleet :: Fleet where
  "scenario_fleet =
     [scenario_patrol_boat, scenario_destroyer [False, True, False], scenario_submarine]"

text \<open>
  A game in a window whose centre is (15, 42): the player's board has the bounds (5, 25)
  and (22, 42). The placement of the ships is interactive (\<^verbatim>\<open>__place_ships\<close>) and is not
  part of this model: \<open>game_fleet\<close> is a fleet it can produce, the five ships in the order
  of \<^verbatim>\<open>ShipType\<close>, each moved from the centre of the board to the left border, in the
  rows 6 to 10. \<open>game_start\<close> is the state in which play begins.
\<close>

definition placed_ship :: "ShipType \<Rightarrow> int \<Rightarrow> Ship" where
  "placed_ship t row =
     \<lparr>ship_type = t, ship_size = size_of t, hits = replicate (size_of t) False,
      start_pos = (row, 23), rotation = RIGHT, bounds_y = (5, 25), bounds_x = (22, 42),
      positions = generate_positions (row, 23) RIGHT (size_of t)\<rparr>"

definition game_fleet :: Fleet where
  "game_fleet =
     [placed_ship PatrolBoat 6, placed_ship Submarine 7, placed_ship Destroyer 8,
      placed_ship Battleship 9, placed_ship Carrier 10]"

definition game_start :: "AIType \<Rightarrow> Manager" where
  "game_start ai_type =
     ready ((Manager_initialize (15, 42) ai_type)\<lparr>fleet := game_fleet, game_state := READY\<rparr>)"

text \<open>
  A game against the random-missiles AI. The player fires at 17 cells of the row 20, where
  no ship is. The values of \<^verbatim>\<open>randint\<close> are the indices, in the moves that remain, of the
  17 cells of the player's ships, the last cell first.
\<close>

definition losing_draws :: "nat list" where
  "losing_draws = [80, 79, 78, 77, 76, 60, 59, 58, 57, 40, 39, 38, 21, 20, 19, 1, 0]"

definition losing_game :: "(pos \<times> nat) list" where
  "losing_game =
     concat (map (\<lambda>(k, r). [((20, 43 + int k), 0), ((20, 43 + int k), r)])
                 (zip [0..<17] losing_draws))"

section \<open>Hit resolution of a ship\<close>

lemma hit_type_simps [simp]:
  "hit_type (Hit_miss p) = MISS"
  "hit_type (Hit_hit p) = HIT"
  "hit_type (Hit_sunk p c ps) = SUNK"
  by (simp_all add: Hit_miss_def Hit_hit_def Hit_sunk_def)

lemma check_hit_from_first:
  "i < length ps \<Longrightarrow> ps ! i = hp \<Longrightarrow> \<forall>j<i. ps ! j \<noteq> hp \<Longrightarrow>
   check_hit_from ps k s hp m =
     (if k + i < length (hits s) then
        (if m \<and> list_all (\<lambda>b. b) ((hits s)[k + i := m])
         then Inr (s\<lparr>hits := (hits s)[k + i := m]\<rparr>,
                   Hit_sunk hp (ShipType_value (ship_type s)) (positions s))
         else Inr (s\<lparr>hits := (hits s)[k + i := m]\<rparr>, Hit_hit hp))
      else Inl IndexError)"
proof (induction ps arbitrary: i k)
  case Nil
  then show ?case by simp
next
  case (Cons p ps)
  show ?case
  proof (cases i)
    case 0
    with Cons.prems show ?thesis by (cases m) (simp_all add: Let_def)
  next
    case (Suc i')
    from Cons.prems Suc have ne: "p \<noteq> hp" by auto
    from Cons.prems Suc have a: "i' < length ps" "ps ! i' = hp" "\<forall>j<i'. ps ! j \<noteq> hp"
      by auto
    show ?thesis using ne Cons.IH[OF a, of "Suc k"] Suc by (cases m) simp_all
  qed
qed

lemma all_true_update:
  "i < length xs \<Longrightarrow> list_all (\<lambda>b. b) (xs[i := True]) = (\<forall>j<length xs. j \<noteq> i \<longrightarrow> xs ! j)"
  by (auto simp: list_all_length nth_list_update)

lemma scenario_destroyer_simps:
  "positions (scenario_destroyer fl) = [(5, 5), (5, 6), (5, 7)]"
  "hits (scenario_destroyer fl) = fl"
  "ship_type (scenario_destroyer fl) = Destroyer"
  "(scenario_destroyer fl)\<lparr>hits := fl'\<rparr> = scenario_destroyer fl'"
  by (simp_all add: scenario_destroyer_def)

text \<open>
  C2. A missile on an occupied cell of a ship, the cell with index \<open>i\<close>: when every other
  damage flag is already true, the flag at \<open>i\<close> being the last one to set, the result is
  Sunk with the ship's identifier and all its positions; when some other flag is still
  false, the result is Hit. In both cases the flag at \<open>i\<close> is set.
\<close>

theorem Ship_check_hit_missile:
  assumes "i < length (positions s)" and "positions s ! i = hp"
    and "\<forall>j<i. positions s ! j \<noteq> hp" and "i < length (hits s)"
  shows "((\<forall>j<length (hits s). j \<noteq> i \<longrightarrow> hits s ! j) \<longrightarrow>
            Ship_check_hit s hp True =
              Inr (s\<lparr>hits := (hits s)[i := True]\<rparr>,
                   Hit_sunk hp (ShipType_value (ship_type s)) (positions s)))
       \<and> ((\<exists>j<length (hits s). j \<noteq> i \<and> \<not> hits s ! j) \<longrightarrow>
            Ship_check_hit s hp True = Inr (s\<lparr>hits := (hits s)[i := True]\<rparr>, Hit_hit hp))"
  using assms check_hit_from_first[of i "positions s" hp 0 s True]
  by (auto simp: Ship_check_hit_def all_true_update)

text \<open>
  The example scenario: shots at (5, 6), (5, 5) and (5, 7) on a fresh destroyer give Hit,
  Hit and Sunk.
\<close>

theorem Ship_check_hit_missile_witness:
  "Ship_check_hit (scenario_destroyer [False, False, False]) (5, 6) True
     = Inr (scenario_destroyer [False, True, False], Hit_hit (5, 6))
   \<and> Ship_check_hit (scenario_destroyer [False, True, False]) (5, 5) True
     = Inr (scenario_destroyer [True, True, False], Hit_hit (5, 5))
   \<and> Ship_check_hit (scenario_destroyer [True, True, False]) (5, 7) True
     = Inr (scenario_destroyer [True, True, True], Hit_sunk (5, 7) ''D'' [(5, 5), (5, 6), (5, 7)])"
proof -
  have a: "Ship_check_hit (scenario_destroyer [False, False, False]) (5, 6) True
     = Inr (scenario_destroyer [False, True, False], Hit_hit (5, 6))"
    using Ship_check_hit_missile[of 1 "scenario_destroyer [False, False, False]" "(5, 6)"]
    by (simp add: scenario_destroyer_simps All_less_Suc Ex_less_Suc numeral_2_eq_2)
  have b: "Ship_check_hit (scenario_destroyer [False, True, False]) (5, 5) True
     = Inr (scenario_destroyer [True, True, False], Hit_hit (5, 5))"
    using Ship_check_hit_missile[of 0 "scenario_destroyer [False, True, False]" "(5, 5)"]
    by (simp add: scenario_destroyer_simps All_less_Suc Ex_less_Suc numeral_2_eq_2)
  have c: "Ship_check_hit (scenario_destroyer [True, True, False]) (5, 7) True
     = Inr (scenario_destroyer [True, True, True], Hit_sunk (5, 7) ''D'' [(5, 5), (5, 6), (5, 7)])"
    using Ship_check_hit_missile[of 2 "scenario_destroyer [True, True, False]" "(5, 7)"]
    by (simp add: scenario_destroyer_simps All_less_Suc Ex_less_Suc numeral_2_eq_2)
  from a b c show ?thesis by simp
qed

text \<open>
  C10. A probe (\<open>is_missile\<close> false) on an occupied cell of a ship sets the damage flag of
  that cell to false, whatever it was, and returns Hit, whatever the other flags are.
\<close>

theorem Ship_check_hit_probe:
  assumes "i < length (positions s)" and "positions s ! i = hp"
    and "\<forall>j<i. positions s ! j \<noteq> hp" and "i < length (hits s)"
  shows "Ship_check_hit s hp False = Inr (s\<lparr>hits := (hits s)[i := False]\<rparr>, Hit_hit hp)"
  using assms check_hit_from_first[of i "positions s" hp 0 s False]
  by (simp add: Ship_check_hit_def)

text \<open>A probe on the last cell of a destroyer whose three flags are true.\<close>

theorem Ship_check_hit_probe_witness:
  "Ship_check_hit (scenario_destroyer [True, True, True]) (5, 7) False
     = Inr (scenario_destroyer [True, True, False], Hit_hit (5, 7))"
  using Ship_check_hit_probe[of 2 "scenario_destroyer [True, True, True]" "(5, 7)"]
  by (simp add: scenario_destroyer_simps All_less_Suc numeral_2_eq_2)

section \<open>Hit resolution of a fleet\<close>

lemma check_hit_from_result:
  "check_hit_from ps k s hp m = Inr (s1, h) \<Longrightarrow>
     (hit_type h = MISS \<longleftrightarrow> hp \<notin> set ps) \<and> (hit_type h = MISS \<longrightarrow> s1 = s \<and> h = Hit_miss hp)"
  by (induction ps arbitrary: k) (auto simp: Let_def split: if_splits)

lemma check_hit_from_returns:
  "k + length ps \<le> length (hits s) \<Longrightarrow> \<exists>s1 h. check_hit_from ps k s hp m = Inr (s1, h)"
  by (induction ps arbitrary: k) (auto simp: Let_def)

lemma Ship_check_hit_returns:
  "length (positions s) \<le> length (hits s) \<Longrightarrow> \<exists>s1 h. Ship_check_hit s hp m = Inr (s1, h)"
  using check_hit_from_returns[of 0 "positions s" s hp m] by (simp add: Ship_check_hit_def)

lemma Ship_check_hit_MISS:
  "Ship_check_hit s hp m = Inr (s1, h) \<Longrightarrow> hit_type h = MISS \<Longrightarrow> s1 = s \<and> h = Hit_miss hp"
  using check_hit_from_result[of "positions s" 0 s hp m s1 h] by (simp add: Ship_check_hit_def)

lemma Fleet_check_hit_all_miss:
  "\<forall>t\<in>set ships. Ship_check_hit t hp m = Inr (t, Hit_miss hp) \<Longrightarrow>
   Fleet_check_hit ships hp m = Inr (ships, Hit_miss hp)"
  by (induction ships) auto

lemma Fleet_check_hit_first:
  "\<forall>t\<in>set pre. Ship_check_hit t hp m = Inr (t, Hit_miss hp) \<Longrightarrow>
   Ship_check_hit s hp m = Inr (s1, h) \<Longrightarrow> hit_type h \<noteq> MISS \<Longrightarrow>
   Fleet_check_hit (pre @ s # post) hp m = Inr (pre @ s1 # post, h)"
  by (induction pre) auto

text \<open>
  Either every ship misses, or the fleet splits at the first ship that does not.
\<close>

lemma Fleet_check_hit_cases:
  "\<forall>t\<in>set ships. length (positions t) \<le> length (hits t) \<Longrightarrow>
   (\<forall>t\<in>set ships. Ship_check_hit t hp m = Inr (t, Hit_miss hp))
   \<or> (\<exists>pre s post s1 h. ships = pre @ s # post
        \<and> (\<forall>t\<in>set pre. Ship_check_hit t hp m = Inr (t, Hit_miss hp))
        \<and> Ship_check_hit s hp m = Inr (s1, h) \<and> hit_type h \<noteq> MISS)"
proof (induction ships)
  case Nil
  then show ?case by simp
next
  case (Cons a ships)
  from Cons.prems obtain a1 h where a: "Ship_check_hit a hp m = Inr (a1, h)"
    using Ship_check_hit_returns[of a hp m] by auto
  show ?case
  proof (cases "hit_type h = MISS")
    case False
    with a have "a # ships = [] @ a # ships
        \<and> (\<forall>t\<in>set []. Ship_check_hit t hp m = Inr (t, Hit_miss hp))
        \<and> Ship_check_hit a hp m = Inr (a1, h) \<and> hit_type h \<noteq> MISS" by simp
    then show ?thesis by blast
  next
    case True
    with a have am: "Ship_check_hit a hp m = Inr (a, Hit_miss hp)"
      using Ship_check_hit_MISS by blast
    from Cons have "(\<forall>t\<in>set ships. Ship_check_hit t hp m = Inr (t, Hit_miss hp))
       \<or> (\<exists>pre s post s1 h. ships = pre @ s # post
            \<and> (\<forall>t\<in>set pre. Ship_check_hit t hp m = Inr (t, Hit_miss hp))
            \<and> Ship_check_hit s hp m = Inr (s1, h) \<and> hit_type h \<noteq> MISS)" by simp
    then show ?thesis
    proof
      assume "\<forall>t\<in>set ships. Ship_check_hit t hp m = Inr (t, Hit_miss hp)"
      with am show ?thesis by simp
    next
      assume "\<exists>pre s post s1 h. ships = pre @ s # post
        \<and> (\<forall>t\<in>set pre. Ship_check_hit t hp m = Inr (t, Hit_miss hp))
        \<and> Ship_check_hit s hp m = Inr (s1, h) \<and> hit_type h \<noteq> MISS"
      then obtain pre s post s1 h where p: "ships = pre @ s # post"
        "\<forall>t\<in>set pre. Ship_check_hit t hp m = Inr (t, Hit_miss hp)"
        "Ship_check_hit s hp m = Inr (s1, h)" "hit_type h \<noteq> MISS" by blast
      with am have "a # ships = (a # pre) @ s # post
         \<and> (\<forall>t\<in>set (a # pre). Ship_check_hit t hp m = Inr (t, Hit_miss hp))
         \<and> Ship_check_hit s hp m = Inr (s1, h) \<and> hit_type h \<noteq> MISS" by simp
      then show ?thesis by blast
    qed
  qed
qed

text \<open>
  C1. On a fleet whose ships each have a damage flag for every position (as every
  constructed ship has), \<open>Fleet_check_hit\<close> returns; its result is a Miss exactly when every
  ship reports a Miss; otherwise it is the result of the first ship, in the order of the
  list, that does not report a Miss. The ships after that one are not consulted: whatever
  ships follow it, the result is the same and they are returned as they were.
\<close>

theorem Fleet_check_hit_first_non_miss:
  assumes "\<forall>t\<in>set ships. length (positions t) \<le> length (hits t)"
  shows "\<exists>ships1 h. Fleet_check_hit ships hp m = Inr (ships1, h)
     \<and> (hit_type h = MISS \<longleftrightarrow>
          (\<forall>t\<in>set ships. \<exists>t1 h1. Ship_check_hit t hp m = Inr (t1, h1) \<and> hit_type h1 = MISS))
     \<and> (hit_type h \<noteq> MISS \<longrightarrow>
          (\<exists>pre s post s1. ships = pre @ s # post
             \<and> (\<forall>t\<in>set pre. \<exists>t1 h1. Ship_check_hit t hp m = Inr (t1, h1) \<and> hit_type h1 = MISS)
             \<and> Ship_check_hit s hp m = Inr (s1, h)
             \<and> (\<forall>post'. Fleet_check_hit (pre @ s # post') hp m = Inr (pre @ s1 # post', h))))"
proof -
  from Fleet_check_hit_cases[OF assms, of hp m]
  show ?thesis
  proof
    assume all: "\<forall>t\<in>set ships. Ship_check_hit t hp m = Inr (t, Hit_miss hp)"
    then have "Fleet_check_hit ships hp m = Inr (ships, Hit_miss hp)"
      by (rule Fleet_check_hit_all_miss)
    moreover from all
    have "\<forall>t\<in>set ships. \<exists>t1 h1. Ship_check_hit t hp m = Inr (t1, h1) \<and> hit_type h1 = MISS"
      by auto
    ultimately show ?thesis by simp
  next
    assume "\<exists>pre s post s1 h. ships = pre @ s # post
        \<and> (\<forall>t\<in>set pre. Ship_check_hit t hp m = Inr (t, Hit_miss hp))
        \<and> Ship_check_hit s hp m = Inr (s1, h) \<and> hit_type h \<noteq> MISS"
    then obtain pre s post s1 h where p: "ships = pre @ s # post"
      "\<forall>t\<in>set pre. Ship_check_hit t hp m = Inr (t, Hit_miss hp)"
      "Ship_check_hit s hp m = Inr (s1, h)" "hit_type h \<noteq> MISS" by blast
    have indep: "\<forall>post'. Fleet_check_hit (pre @ s # post') hp m = Inr (pre @ s1 # post', h)"
      using Fleet_check_hit_first[OF p(2) p(3) p(4)] by simp
    then have run: "Fleet_check_hit ships hp m = Inr (pre @ s1 # post, h)"
      using p(1) by simp
    have notall: "\<not> (\<forall>t\<in>set ships. \<exists>t1 h1. Ship_check_hit t hp m = Inr (t1, h1)
                          \<and> hit_type h1 = MISS)"
      using p(1) p(3) p(4) by auto
    have pre: "\<forall>t\<in>set pre. \<exists>t1 h1. Ship_check_hit t hp m = Inr (t1, h1) \<and> hit_type h1 = MISS"
      using p(2) by auto
    from p(1) pre p(3) indep
    have "\<exists>pre s post s1. ships = pre @ s # post
             \<and> (\<forall>t\<in>set pre. \<exists>t1 h1. Ship_check_hit t hp m = Inr (t1, h1) \<and> hit_type h1 = MISS)
             \<and> Ship_check_hit s hp m = Inr (s1, h)
             \<and> (\<forall>post'. Fleet_check_hit (pre @ s # post') hp m = Inr (pre @ s1 # post', h))"
      by blast
    with run notall p(4) show ?thesis by simp
  qed
qed

text \<open>
  A missile at (5, 7) on the example fleet: the patrol boat misses, the destroyer is hit,
  and the submarine, which occupies the cell too, keeps its flags.
\<close>

theorem Fleet_check_hit_first_non_miss_witness:
  "length (positions scenario_patrol_boat) \<le> length (hits scenario_patrol_boat)
   \<and> length (positions (scenario_destroyer [False, True, False]))
       \<le> length (hits (scenario_destroyer [False, True, False]))
   \<and> length (positions scenario_submarine) \<le> length (hits scenario_submarine)
   \<and> Ship_check_hit scenario_patrol_boat (5, 7) True
       = Inr (scenario_patrol_boat, Hit_miss (5, 7))
   \<and> Ship_check_hit (scenario_destroyer [False, True, False]) (5, 7) True
       = Inr (scenario_destroyer [False, True, True], Hit_hit (5, 7))
   \<and> (\<exists>ships1 h. Fleet_check_hit scenario_fleet (5, 7) True = Inr (ships1, h)
         \<and> ships1 = [scenario_patrol_boat, scenario_destroyer [False, True, True],
                       scenario_submarine]
         \<and> h = Hit_hit (5, 7) \<and> hit_type h \<noteq> MISS)"
proof -
  have l: "length (positions scenario_patrol_boat) \<le> length (hits scenario_patrol_boat)"
    "length (positions (scenario_destroyer [False, True, False]))
       \<le> length (hits (scenario_destroyer [False, True, False]))"
    "length (positions scenario_submarine) \<le> length (hits scenario_submarine)"
    by (simp_all add: scenario_patrol_boat_def scenario_destroyer_def scenario_submarine_def)
  then have h: "\<forall>t\<in>set scenario_fleet. length (positions t) \<le> length (hits t)"
    by (simp add: scenario_fleet_def)
  have p: "Ship_check_hit scenario_patrol_boat (5, 7) True
       = Inr (scenario_patrol_boat, Hit_miss (5, 7))"
    by (simp add: scenario_patrol_boat_def Ship_check_hit_def)
  have d: "Ship_check_hit (scenario_destroyer [False, True, False]) (5, 7) True
       = Inr (scenario_destroyer [False, True, True], Hit_hit (5, 7))"
    by (simp add: scenario_destroyer_def Ship_check_hit_def)
  from Fleet_check_hit_first_non_miss[OF h, of "(5, 7)" True]
  obtain ships1 h1 where r: "Fleet_check_hit scenario_fleet (5, 7) True = Inr (ships1, h1)"
    by blast
  moreover have "Fleet_check_hit scenario_fleet (5, 7) True
       = Inr ([scenario_patrol_boat, scenario_destroyer [False, True, True], scenario_submarine],
              Hit_hit (5, 7))"
    by (simp add: scenario_fleet_def p d)
  ultimately have e: "ships1 = [scenario_patrol_boat, scenario_destroyer [False, True, True],
                       scenario_submarine]" "h1 = Hit_hit (5, 7)"
    by simp_all
  then have "hit_type h1 \<noteq> MISS" by simp
  with r e l p d show ?thesis by blast
qed

section \<open>Placement, moves and rotation\<close>

lemma generate_positions_length [simp]: "length (generate_positions p d n) = n"
  by (simp add: generate_positions_def)

lemma generate_positions_Nil [simp]: "(generate_positions p d n = []) = (n = 0)"
  by (simp add: generate_positions_def)

lemma update_positions_eq:
  "0 < ship_size s \<Longrightarrow>
   update_positions s p =
     (if in_bounds (s\<lparr>positions := generate_positions p (rotation s) (ship_size s)\<rparr>) = Inr True
      then Inr (s\<lparr>positions := generate_positions p (rotation s) (ship_size s), start_pos := p\<rparr>, True)
      else Inr (s, False))"
  by (simp add: update_positions_def in_bounds_def Let_def)

lemma orientation_test_frame [simp]:
  "orientation_test (s\<lparr>rotation := r\<rparr>) d = orientation_test s d"
  "orientation_test (s\<lparr>positions := ps\<rparr>) d = orientation_test s d"
  "orientation_test (s\<lparr>hits := hs\<rparr>) d = orientation_test s d"
  by (simp_all add: orientation_test_def in_bounds_def)

lemma orientation_fits_frame [simp]:
  "orientation_fits (s\<lparr>rotation := r\<rparr>) d = orientation_fits s d"
  "orientation_fits (s\<lparr>positions := ps\<rparr>) d = orientation_fits s d"
  "orientation_fits (s\<lparr>hits := hs\<rparr>) d = orientation_fits s d"
  by (simp_all add: orientation_fits_def)

lemma orientation_fits_size: "orientation_fits s d \<Longrightarrow> 0 < ship_size s"
  by (auto simp: orientation_fits_def orientation_test_def in_bounds_def split: if_splits)

lemma orientation_test_False_size: "orientation_test s d = Inr False \<Longrightarrow> 0 < ship_size s"
  by (auto simp: orientation_test_def in_bounds_def split: if_splits)

text \<open>One round of the loop.\<close>

lemma rotate_loop_step:
  "0 < ship_size s \<Longrightarrow>
   rotate_loop s =
     (if orientation_fits s (rotation s) then Some (Inr (turned s (rotation s)))
      else rotate_loop (s\<lparr>rotation := rotate_clockwise (rotation s)\<rparr>))"
  by (subst rotate_loop.simps)
     (simp add: update_positions_eq orientation_fits_def orientation_test_def turned_def)

lemma rotate_loop_Some_fits:
  assumes "rotate_loop s = Some y"
  shows "0 < ship_size s \<longrightarrow> (\<exists>d. orientation_fits s d)"
proof (rule rotate_loop.raw_induct
         [where P = "\<lambda>s y. 0 < ship_size s \<longrightarrow> (\<exists>d. orientation_fits s d)", OF _ assms])
  fix f :: "Ship \<Rightarrow> (py_error + Ship) option" and s y
  assume IH: "\<And>x y. f x = Some y \<Longrightarrow> 0 < ship_size x \<longrightarrow> (\<exists>d. orientation_fits x d)"
    and eq: "(case update_positions s (start_pos s) of
                Inl e \<Rightarrow> Some (Inl e)
              | Inr (s1, ok) \<Rightarrow>
                  if \<not> ok then f (s1\<lparr>rotation := rotate_clockwise (rotation s1)\<rparr>)
                  else Some (Inr s1)) = Some y"
  show "0 < ship_size s \<longrightarrow> (\<exists>d. orientation_fits s d)"
  proof
    assume sz: "0 < ship_size s"
    show "\<exists>d. orientation_fits s d"
    proof (cases "orientation_fits s (rotation s)")
      case True
      then show ?thesis by blast
    next
      case False
      with eq sz
      have "f (s\<lparr>rotation := rotate_clockwise (rotation s)\<rparr>) = Some y"
        by (simp add: update_positions_eq orientation_fits_def orientation_test_def)
      from IH[OF this] sz show ?thesis by simp
    qed
  qed
qed

lemma rotate_loop_None:
  "0 < ship_size s \<Longrightarrow> \<forall>d. \<not> orientation_fits s d \<Longrightarrow> rotate_loop s = None"
  using rotate_loop_Some_fits[of s] by (cases "rotate_loop s") auto

lemma cw4 [simp]: "rotate_clockwise (rotate_clockwise (rotate_clockwise (rotate_clockwise d))) = d"
  by (cases d) simp_all

lemma all_directions: "(\<forall>d. P d) = (P UP \<and> P RIGHT \<and> P DOWN \<and> P LEFT)"
  by (metis Direction.exhaust)

lemma ex_directions: "(\<exists>d. P d) = (P UP \<or> P RIGHT \<or> P DOWN \<or> P LEFT)"
  by (metis Direction.exhaust)

lemma turned_simps [simp]:
  "rotation (turned s d) = d"
  "start_pos (turned s d) = start_pos s"
  "ship_size (turned s d) = ship_size s"
  "hits (turned s d) = hits s"
  "ship_type (turned s d) = ship_type s"
  "bounds_y (turned s d) = bounds_y s"
  "bounds_x (turned s d) = bounds_x s"
  "positions (turned s d) = generate_positions (start_pos s) d (ship_size s)"
  "turned (turned s d) d' = turned s d'"
  "turned (s\<lparr>rotation := r\<rparr>) d = turned s d"
  "orientation_fits (turned s d) d' = orientation_fits s d'"
  by (simp_all add: turned_def)

lemma rotate_eq:
  assumes "0 < ship_size s"
  shows "rotate s = map_option (\<lambda>d. Inr (turned s d)) (next_fit s (rotation s))"
proof -
  let ?d1 = "rotate_clockwise (rotation s)"
  let ?d2 = "rotate_clockwise ?d1"
  let ?d3 = "rotate_clockwise ?d2"
  show ?thesis
  proof (cases "\<exists>d. orientation_fits s d")
    case False
    then have "rotate s = None" using assms by (simp add: rotate_def rotate_loop_None)
    moreover from False have "next_fit s (rotation s) = None" by (simp add: next_fit_def Let_def)
    ultimately show ?thesis by simp
  next
    case True
    then have some: "orientation_fits s ?d1 \<or> orientation_fits s ?d2 \<or> orientation_fits s ?d3
        \<or> orientation_fits s (rotation s)"
      by (cases "rotation s") (auto simp: ex_directions)
    have l1: "rotate s = rotate_loop (s\<lparr>rotation := ?d1\<rparr>)" by (simp add: rotate_def)
    have s1: "rotate_loop (s\<lparr>rotation := ?d1\<rparr>) =
       (if orientation_fits s ?d1 then Some (Inr (turned s ?d1)) else rotate_loop (s\<lparr>rotation := ?d2\<rparr>))"
      using assms by (subst rotate_loop_step) simp_all
    have s2: "rotate_loop (s\<lparr>rotation := ?d2\<rparr>) =
       (if orientation_fits s ?d2 then Some (Inr (turned s ?d2)) else rotate_loop (s\<lparr>rotation := ?d3\<rparr>))"
      using assms by (subst rotate_loop_step) simp_all
    have s3: "rotate_loop (s\<lparr>rotation := ?d3\<rparr>) =
       (if orientation_fits s ?d3 then Some (Inr (turned s ?d3))
        else rotate_loop s)"
      using assms by (subst rotate_loop_step) simp_all
    have s4: "orientation_fits s (rotation s) \<Longrightarrow>
       rotate_loop s = Some (Inr (turned s (rotation s)))"
      using assms by (subst rotate_loop_step) simp_all
    from some show ?thesis
      unfolding l1 by (auto simp: s1 s2 s3 s4 next_fit_def Let_def)
  qed
qed


lemma in_bounds_turned: "in_bounds (turned s d) = orientation_test s d"
  by (simp add: turned_def orientation_test_def in_bounds_def)

lemma next_fit_fits: "next_fit s d = Some d' \<Longrightarrow> orientation_fits s d'"
  by (auto simp: next_fit_def Let_def split: if_splits)

lemma next_fit_Some: "orientation_fits s e \<Longrightarrow> \<exists>d'. next_fit s d = Some d'"
  by (cases d; cases e) (auto simp: next_fit_def Let_def)

lemma update_positions_fail:
  "in_bounds (s\<lparr>positions := generate_positions p (rotation s) (ship_size s)\<rparr>) = Inr False \<Longrightarrow>
   update_positions s p = Inr (s, False)"
  by (simp add: update_positions_def Let_def)

lemma update_positions_frame:
  "update_positions s p = Inr (s1, ok) \<Longrightarrow>
   rotation s1 = rotation s \<and> hits s1 = hits s \<and> ship_size s1 = ship_size s
   \<and> ship_type s1 = ship_type s \<and> bounds_y s1 = bounds_y s \<and> bounds_x s1 = bounds_x s"
  by (auto simp: update_positions_def Let_def split: sum.splits if_splits)

subsection \<open>The example ships\<close>

lemmas eval_ship = orientation_fits_def orientation_test_def in_bounds_def generate_positions_def
  pos_in_bounds_def numeral_3_eq_3

lemma scenario_destroyer_fits: "orientation_fits (scenario_destroyer fl) d"
  by (cases d) (simp_all add: eval_ship scenario_destroyer_def)

lemma top_row_destroyer_fits: "orientation_fits top_row_destroyer d = (d \<noteq> UP)"
  by (cases d) (simp_all add: eval_ship top_row_destroyer_def)

lemma corner_destroyer_fits: "orientation_fits corner_destroyer d = (d = RIGHT \<or> d = DOWN)"
  by (cases d) (simp_all add: eval_ship corner_destroyer_def)

lemma outside_destroyer_test: "orientation_test outside_destroyer d = Inr False"
  by (cases d) (simp_all add: orientation_test_def in_bounds_def generate_positions_def
                  pos_in_bounds_def numeral_3_eq_3 outside_destroyer_def)

subsection \<open>Moves\<close>

text \<open>
  C7. When the positions generated from the moved start position fail the bounds test,
  \<open>move\<close> returns the ship unchanged, and no error. Whenever \<open>move\<close> returns, the rotation
  and the damage flags are those of before; and it returns for every ship of positive
  size.
\<close>

theorem move_rejected_unchanged:
  "(in_bounds (s\<lparr>positions := generate_positions (moved_start (start_pos s) d) (rotation s)
                                (ship_size s)\<rparr>) = Inr False \<longrightarrow> move s d = Inr s)
   \<and> (\<forall>s1. move s d = Inr s1 \<longrightarrow> rotation s1 = rotation s \<and> hits s1 = hits s)
   \<and> (0 < ship_size s \<longrightarrow> (\<exists>s1. move s d = Inr s1))"
proof (intro conjI impI allI)
  assume "in_bounds (s\<lparr>positions := generate_positions (moved_start (start_pos s) d) (rotation s)
                                (ship_size s)\<rparr>) = Inr False"
  then show "move s d = Inr s" by (simp add: move_def update_positions_fail)
next
  fix s1 assume "move s d = Inr s1"
  then obtain ok where "update_positions s (moved_start (start_pos s) d) = Inr (s1, ok)"
    by (auto simp: move_def split: sum.splits)
  then show "rotation s1 = rotation s" "hits s1 = hits s" using update_positions_frame by blast+
next
  assume "0 < ship_size s"
  then show "\<exists>s1. move s d = Inr s1" by (simp add: move_def update_positions_eq)
qed

text \<open>
  The destroyer in the top row: a move up is rejected, a move to the right is made.
\<close>

theorem move_rejected_unchanged_witness:
  "in_bounds (top_row_destroyer\<lparr>positions :=
       generate_positions (moved_start (start_pos top_row_destroyer) UP)
         (rotation top_row_destroyer) (ship_size top_row_destroyer)\<rparr>) = Inr False
   \<and> move top_row_destroyer UP = Inr top_row_destroyer
   \<and> move top_row_destroyer RIGHT
       = Inr (top_row_destroyer\<lparr>positions := [(1, 6), (1, 7), (1, 8)], start_pos := (1, 6)\<rparr>)
   \<and> rotation (top_row_destroyer\<lparr>positions := [(1, 6), (1, 7), (1, 8)], start_pos := (1, 6)\<rparr>)
       = rotation top_row_destroyer
   \<and> hits (top_row_destroyer\<lparr>positions := [(1, 6), (1, 7), (1, 8)], start_pos := (1, 6)\<rparr>)
       = hits top_row_destroyer
   \<and> 0 < ship_size top_row_destroyer"
proof -
  have z: "0 < ship_size top_row_destroyer" by (simp add: top_row_destroyer_def)
  have h: "in_bounds (top_row_destroyer\<lparr>positions :=
       generate_positions (moved_start (start_pos top_row_destroyer) UP)
         (rotation top_row_destroyer) (ship_size top_row_destroyer)\<rparr>) = Inr False"
    by (simp add: top_row_destroyer_def moved_start_def in_bounds_def generate_positions_def
                  pos_in_bounds_def numeral_3_eq_3)
  have m: "move top_row_destroyer RIGHT
       = Inr (top_row_destroyer\<lparr>positions := [(1, 6), (1, 7), (1, 8)], start_pos := (1, 6)\<rparr>)"
    by (simp add: top_row_destroyer_def move_def update_positions_def moved_start_def
                  in_bounds_def generate_positions_def pos_in_bounds_def numeral_3_eq_3 Let_def)
  from move_rejected_unchanged[of top_row_destroyer UP] h
  have u: "move top_row_destroyer UP = Inr top_row_destroyer" by blast
  from move_rejected_unchanged[of top_row_destroyer RIGHT] m
  have f: "rotation (top_row_destroyer\<lparr>positions := [(1, 6), (1, 7), (1, 8)], start_pos := (1, 6)\<rparr>)
       = rotation top_row_destroyer
   \<and> hits (top_row_destroyer\<lparr>positions := [(1, 6), (1, 7), (1, 8)], start_pos := (1, 6)\<rparr>)
       = hits top_row_destroyer" by blast
  from h u m f z show ?thesis by blast
qed

subsection \<open>Rotation\<close>

text \<open>
  C5. When the bounds test passes for at least one of the four rotations from the ship's
  start position, \<open>rotate\<close> returns, and leaves the ship in a rotation whose test passes:
  the start position is kept, the positions are those generated for that rotation, and
  \<open>in_bounds\<close> holds. When the test fails for all four rotations, \<open>rotate\<close> does not
  return.
\<close>

theorem rotate_terminates_iff_fits:
  "((\<exists>d. orientation_fits s d) \<longrightarrow>
      (\<exists>s1. rotate s = Some (Inr s1) \<and> orientation_fits s (rotation s1)
            \<and> s1 = turned s (rotation s1) \<and> in_bounds s1 = Inr True))
   \<and> ((\<forall>d. orientation_test s d = Inr False) \<longrightarrow> rotate s = None)"
proof (intro conjI impI)
  assume "\<exists>d. orientation_fits s d"
  then obtain e where e: "orientation_fits s e" ..
  then have sz: "0 < ship_size s" by (rule orientation_fits_size)
  from e obtain d' where d': "next_fit s (rotation s) = Some d'"
    using next_fit_Some by blast
  then have f: "orientation_fits s d'" by (rule next_fit_fits)
  have "rotate s = Some (Inr (turned s d'))" using sz d' by (simp add: rotate_eq)
  moreover have "in_bounds (turned s d') = Inr True"
    using f by (simp add: in_bounds_turned orientation_fits_def)
  ultimately show "\<exists>s1. rotate s = Some (Inr s1) \<and> orientation_fits s (rotation s1)
            \<and> s1 = turned s (rotation s1) \<and> in_bounds s1 = Inr True"
    using f by simp
next
  assume a: "\<forall>d. orientation_test s d = Inr False"
  then have "orientation_test s UP = Inr False" by blast
  then have sz: "0 < ship_size s" by (rule orientation_test_False_size)
  from a have "\<forall>d. \<not> orientation_fits s d" by (simp add: orientation_fits_def)
  then have "next_fit s (rotation s) = None" by (simp add: next_fit_def Let_def)
  with sz show "rotate s = None" by (simp add: rotate_eq)
qed

text \<open>
  The destroyer in the top row has a rotation that fits, and \<open>rotate\<close> returns; for the
  destroyer outside the board no rotation fits, and \<open>rotate\<close> does not return.
\<close>

theorem rotate_terminates_iff_fits_witness:
  "(\<exists>d. orientation_fits top_row_destroyer d)
   \<and> (\<exists>s1. rotate top_row_destroyer = Some (Inr s1) \<and> orientation_fits top_row_destroyer (rotation s1)
            \<and> s1 = turned top_row_destroyer (rotation s1) \<and> in_bounds s1 = Inr True)
   \<and> (\<forall>d. orientation_test outside_destroyer d = Inr False)
   \<and> rotate outside_destroyer = None"
proof -
  have a: "\<exists>d. orientation_fits top_row_destroyer d"
    using top_row_destroyer_fits[of RIGHT] by blast
  have b: "\<forall>d. orientation_test outside_destroyer d = Inr False"
    by (simp add: outside_destroyer_test)
  from rotate_terminates_iff_fits[of top_row_destroyer] a
  have c: "\<exists>s1. rotate top_row_destroyer = Some (Inr s1)
            \<and> orientation_fits top_row_destroyer (rotation s1)
            \<and> s1 = turned top_row_destroyer (rotation s1) \<and> in_bounds s1 = Inr True" by blast
  from rotate_terminates_iff_fits[of outside_destroyer] b
  have d: "rotate outside_destroyer = None" by blast
  from a b c d show ?thesis by blast
qed

lemma next_fit_turned [simp]: "next_fit (turned s d) d' = next_fit s d'"
  by (simp add: next_fit_def Let_def)

lemma rotate_times_Suc_turned:
  "0 < ship_size s \<Longrightarrow>
   rotate_times (Suc n) (turned s d) =
     (case next_fit s d of None \<Rightarrow> None | Some d1 \<Rightarrow> rotate_times n (turned s d1))"
  by (simp add: rotate_eq split: option.splits)

lemma turned_self:
  "positions s = generate_positions (start_pos s) (rotation s) (ship_size s) \<Longrightarrow>
   turned s (rotation s) = s"
  by (simp add: turned_def)

lemma rotate_times_turned:
  "0 < ship_size s \<Longrightarrow>
   rotate_times n (turned s d) = map_option (\<lambda>d. Inr (turned s d)) (fit_iter s n d)"
proof (induction n arbitrary: d)
  case 0
  then show ?case by simp
next
  case (Suc n)
  show ?case
  proof (cases "next_fit s d")
    case None
    then show ?thesis
      using Suc.prems by (simp add: rotate_times_Suc_turned del: rotate_times.simps(2))
  next
    case (Some d1)
    then show ?thesis
      using Suc.prems Suc.IH[OF Suc.prems, of d1]
      by (simp add: rotate_times_Suc_turned del: rotate_times.simps(2))
  qed
qed

lemma fit_iter_cycle4:
  assumes "orientation_fits s r"
    and "length (filter (orientation_fits s) [UP, RIGHT, DOWN, LEFT]) \<noteq> 3"
  shows "fit_iter s 4 r = Some r"
  using assms
  by (cases r; cases "orientation_fits s UP"; cases "orientation_fits s RIGHT";
      cases "orientation_fits s DOWN"; cases "orientation_fits s LEFT")
     (simp_all add: next_fit_def Let_def eval_nat_numeral)

lemma fit_iter_cycle3:
  assumes "orientation_fits s r"
    and "length (filter (orientation_fits s) [UP, RIGHT, DOWN, LEFT]) = 3"
  shows "fit_iter s 3 r = Some r \<and> fit_iter s 4 r = next_fit s r
       \<and> (\<exists>d. next_fit s r = Some d \<and> d \<noteq> r)"
  using assms
  by (cases r; cases "orientation_fits s UP"; cases "orientation_fits s RIGHT";
      cases "orientation_fits s DOWN"; cases "orientation_fits s LEFT")
     (simp_all add: next_fit_def Let_def eval_nat_numeral)

lemma turned_neq: "d \<noteq> rotation s \<Longrightarrow> turned s d \<noteq> s"
  by (metis turned_simps(1))

lemma next_fit_three:
  assumes "orientation_fits s r"
    and "length (filter (orientation_fits s) [UP, RIGHT, DOWN, LEFT]) = 3"
  shows "next_fit s r =
     Some (case r of
             UP \<Rightarrow> if orientation_fits s RIGHT then RIGHT else DOWN
           | RIGHT \<Rightarrow> if orientation_fits s DOWN then DOWN else LEFT
           | DOWN \<Rightarrow> if orientation_fits s LEFT then LEFT else UP
           | LEFT \<Rightarrow> if orientation_fits s UP then UP else RIGHT)"
  using assms
  by (cases r; cases "orientation_fits s UP"; cases "orientation_fits s RIGHT";
      cases "orientation_fits s DOWN"; cases "orientation_fits s LEFT")
     (simp_all add: next_fit_def Let_def)

text \<open>
  C4, as amended. For a ship in a valid placement (its positions are those generated from
  its start position and rotation, and they pass the bounds test): when one, two or all
  four of the rotations fit from its start position, four calls of \<open>rotate\<close> return the
  ship as it was. When exactly three fit, three calls do, and four calls leave the ship
  where one call does: at the same start position, in the next rotation clockwise (up,
  right, down, left, up) that fits, which is not the original one, with the positions
  generated for it.
\<close>

theorem rotate_four_times_valid:
  assumes "positions s = generate_positions (start_pos s) (rotation s) (ship_size s)"
    and "orientation_fits s (rotation s)"
  shows "(length (filter (orientation_fits s) [UP, RIGHT, DOWN, LEFT]) \<noteq> 3 \<longrightarrow>
            rotate_times 4 s = Some (Inr s))
       \<and> (length (filter (orientation_fits s) [UP, RIGHT, DOWN, LEFT]) = 3 \<longrightarrow>
            (let d = (case rotation s of
                        UP \<Rightarrow> if orientation_fits s RIGHT then RIGHT else DOWN
                      | RIGHT \<Rightarrow> if orientation_fits s DOWN then DOWN else LEFT
                      | DOWN \<Rightarrow> if orientation_fits s LEFT then LEFT else UP
                      | LEFT \<Rightarrow> if orientation_fits s UP then UP else RIGHT)
             in rotate_times 3 s = Some (Inr s)
                \<and> rotate_times 4 s
                    = Some (Inr (s\<lparr>rotation := d,
                                   positions := generate_positions (start_pos s) d (ship_size s)\<rparr>))
                \<and> rotate_times 4 s = rotate s
                \<and> orientation_fits s d \<and> d \<noteq> rotation s
                \<and> rotate_times 4 s \<noteq> Some (Inr s)))"
proof (intro conjI impI)
  have sz: "0 < ship_size s" using assms(2) by (rule orientation_fits_size)
  have t: "turned s (rotation s) = s" using assms(1) by (rule turned_self)
  have rt: "\<And>n. rotate_times n s =
     map_option (\<lambda>d. Inr (turned s d)) (fit_iter s n (rotation s))"
    using rotate_times_turned[OF sz, of _ "rotation s"] t by simp
  have r1: "rotate s = map_option (\<lambda>d. Inr (turned s d)) (next_fit s (rotation s))"
    using sz by (rule rotate_eq)
  {
    assume "length (filter (orientation_fits s) [UP, RIGHT, DOWN, LEFT]) \<noteq> 3"
    from fit_iter_cycle4[OF assms(2) this] show "rotate_times 4 s = Some (Inr s)"
      by (simp only: rt option.map t)
  }
  assume c: "length (filter (orientation_fits s) [UP, RIGHT, DOWN, LEFT]) = 3"
  define d where "d = (case rotation s of
                        UP \<Rightarrow> if orientation_fits s RIGHT then RIGHT else DOWN
                      | RIGHT \<Rightarrow> if orientation_fits s DOWN then DOWN else LEFT
                      | DOWN \<Rightarrow> if orientation_fits s LEFT then LEFT else UP
                      | LEFT \<Rightarrow> if orientation_fits s UP then UP else RIGHT)"
  note k = fit_iter_cycle3[OF assms(2) c]
  have nf: "next_fit s (rotation s) = Some d"
    unfolding d_def by (rule next_fit_three[OF assms(2) c])
  from k have a: "rotate_times 3 s = Some (Inr s)" by (simp only: rt option.map t)
  from k have b: "rotate_times 4 s = rotate s" by (simp only: rt r1)
  have e: "rotate s = Some (Inr (s\<lparr>rotation := d,
                 positions := generate_positions (start_pos s) d (ship_size s)\<rparr>))"
    by (simp add: r1 nf turned_def)
  have f: "orientation_fits s d" using nf by (rule next_fit_fits)
  from k nf have g: "d \<noteq> rotation s" by auto
  then have h: "rotate s \<noteq> Some (Inr s)" using turned_neq[of d s] by (simp add: r1 nf)
  from a b e f g h
  show "let d = (case rotation s of
                        UP \<Rightarrow> if orientation_fits s RIGHT then RIGHT else DOWN
                      | RIGHT \<Rightarrow> if orientation_fits s DOWN then DOWN else LEFT
                      | DOWN \<Rightarrow> if orientation_fits s LEFT then LEFT else UP
                      | LEFT \<Rightarrow> if orientation_fits s UP then UP else RIGHT)
             in rotate_times 3 s = Some (Inr s)
                \<and> rotate_times 4 s
                    = Some (Inr (s\<lparr>rotation := d,
                                   positions := generate_positions (start_pos s) d (ship_size s)\<rparr>))
                \<and> rotate_times 4 s = rotate s
                \<and> orientation_fits s d \<and> d \<noteq> rotation s
                \<and> rotate_times 4 s \<noteq> Some (Inr s)"
    unfolding Let_def d_def[symmetric] by simp
qed

lemma rotate_times_Suc_eq:
  assumes "0 < ship_size s"
  shows "rotate_times (Suc n) s =
     map_option (\<lambda>d. Inr (turned s d)) (fit_iter s (Suc n) (rotation s))"
proof (cases "next_fit s (rotation s)")
  case None
  then show ?thesis using assms by (simp add: rotate_eq)
next
  case (Some d1)
  then show ?thesis using assms rotate_times_turned[OF assms, of n d1] by (simp add: rotate_eq)
qed

text \<open>
  For the destroyer of the scenario all four rotations fit; for the destroyer in the top
  row three do.
\<close>

theorem rotate_four_times_valid_witness:
  "positions (scenario_destroyer [False, False, False])
     = generate_positions (start_pos (scenario_destroyer [False, False, False]))
         (rotation (scenario_destroyer [False, False, False]))
         (ship_size (scenario_destroyer [False, False, False]))
   \<and> orientation_fits (scenario_destroyer [False, False, False])
         (rotation (scenario_destroyer [False, False, False]))
   \<and> length (filter (orientation_fits (scenario_destroyer [False, False, False]))
                [UP, RIGHT, DOWN, LEFT]) = 4
   \<and> rotate_times 4 (scenario_destroyer [False, False, False])
       = Some (Inr (scenario_destroyer [False, False, False]))
   \<and> positions top_row_destroyer
       = generate_positions (start_pos top_row_destroyer) (rotation top_row_destroyer)
           (ship_size top_row_destroyer)
   \<and> orientation_fits top_row_destroyer (rotation top_row_destroyer)
   \<and> length (filter (orientation_fits top_row_destroyer) [UP, RIGHT, DOWN, LEFT]) = 3
   \<and> rotate_times 3 top_row_destroyer = Some (Inr top_row_destroyer)
   \<and> rotate_times 4 top_row_destroyer
       = Some (Inr (top_row_destroyer\<lparr>rotation := DOWN, positions := [(1, 5), (2, 5), (3, 5)]\<rparr>))"
proof -
  let ?a = "scenario_destroyer [False, False, False]"
  have a1: "positions ?a = generate_positions (start_pos ?a) (rotation ?a) (ship_size ?a)"
    by (simp add: scenario_destroyer_def generate_positions_def numeral_3_eq_3)
  have a2: "orientation_fits ?a (rotation ?a)" by (rule scenario_destroyer_fits)
  have a3: "length (filter (orientation_fits ?a) [UP, RIGHT, DOWN, LEFT]) = 4"
    by (simp add: scenario_destroyer_fits)
  have b1: "positions top_row_destroyer
       = generate_positions (start_pos top_row_destroyer) (rotation top_row_destroyer)
           (ship_size top_row_destroyer)"
    by (simp add: top_row_destroyer_def generate_positions_def numeral_3_eq_3)
  have b2: "orientation_fits top_row_destroyer (rotation top_row_destroyer)"
    by (simp add: top_row_destroyer_fits) (simp add: top_row_destroyer_def)
  have b3: "length (filter (orientation_fits top_row_destroyer) [UP, RIGHT, DOWN, LEFT]) = 3"
    by (simp add: top_row_destroyer_fits)
  from rotate_four_times_valid[OF a1 a2] a3
  have a4: "rotate_times 4 ?a = Some (Inr ?a)" by simp
  have b0: "rotation top_row_destroyer = RIGHT" "start_pos top_row_destroyer = (1, 5)"
    "ship_size top_row_destroyer = 3"
    by (simp_all add: top_row_destroyer_def)
  from rotate_four_times_valid[OF b1 b2] b3
  have b4: "rotate_times 3 top_row_destroyer = Some (Inr top_row_destroyer)"
    and b5: "rotate_times 4 top_row_destroyer
       = Some (Inr (top_row_destroyer\<lparr>rotation := DOWN,
                      positions := generate_positions (1, 5) DOWN 3\<rparr>))"
    by (simp_all add: Let_def b0 top_row_destroyer_fits)
  have g: "generate_positions (1, 5) DOWN 3 = [(1, 5), (2, 5), (3, 5)]"
    by (simp add: generate_positions_def numeral_3_eq_3)
  from a1 a2 a3 a4 b1 b2 b3 b4 b5 show ?thesis unfolding g by blast
qed

text \<open>
  C4 as stated fails. The destroyer in the top row, facing right, has three rotations
  that fit: four calls of \<open>rotate\<close> leave it facing down. The destroyer constructed in the
  corner facing up has no positions, and two rotations that fit: four calls of \<open>rotate\<close>
  leave it facing down, with three positions.
\<close>

theorem rotate_four_times_counterexample:
  "orientation_fits top_row_destroyer RIGHT
   \<and> positions top_row_destroyer = generate_positions (1, 5) RIGHT 3
   \<and> rotate_times 4 top_row_destroyer
       = Some (Inr (top_row_destroyer\<lparr>rotation := DOWN, positions := [(1, 5), (2, 5), (3, 5)]\<rparr>))
   \<and> rotate_times 4 top_row_destroyer \<noteq> Some (Inr top_row_destroyer)
   \<and> Ship_init Destroyer (1, 1) UP (0, 10) (0, 10) = Inr corner_destroyer
   \<and> orientation_fits corner_destroyer RIGHT
   \<and> rotate_times 4 corner_destroyer
       = Some (Inr (corner_destroyer\<lparr>rotation := DOWN, positions := [(1, 1), (2, 1), (3, 1)]\<rparr>))
   \<and> rotate_times 4 corner_destroyer \<noteq> Some (Inr corner_destroyer)"
proof -
  have t: "rotate_times 4 top_row_destroyer = Some (Inr (turned top_row_destroyer DOWN))"
  proof -
    have sz: "0 < ship_size top_row_destroyer" and r: "rotation top_row_destroyer = RIGHT"
      by (simp_all add: top_row_destroyer_def)
    have f: "fit_iter top_row_destroyer (Suc 3) RIGHT = Some DOWN"
      by (simp add: eval_nat_numeral next_fit_def top_row_destroyer_fits)
    have four: "(4::nat) = Suc 3" by simp
    show ?thesis unfolding four rotate_times_Suc_eq[OF sz] r f by simp
  qed
  have c: "rotate_times 4 corner_destroyer = Some (Inr (turned corner_destroyer DOWN))"
  proof -
    have sz: "0 < ship_size corner_destroyer" and r: "rotation corner_destroyer = UP"
      by (simp_all add: corner_destroyer_def)
    have f: "fit_iter corner_destroyer (Suc 3) UP = Some DOWN"
      by (simp add: eval_nat_numeral next_fit_def corner_destroyer_fits)
    have four: "(4::nat) = Suc 3" by simp
    show ?thesis unfolding four rotate_times_Suc_eq[OF sz] r f by simp
  qed
  have td: "turned top_row_destroyer DOWN
       = top_row_destroyer\<lparr>rotation := DOWN, positions := [(1, 5), (2, 5), (3, 5)]\<rparr>"
    by (simp add: turned_def top_row_destroyer_def generate_positions_def numeral_3_eq_3)
  have cd: "turned corner_destroyer DOWN
       = corner_destroyer\<lparr>rotation := DOWN, positions := [(1, 1), (2, 1), (3, 1)]\<rparr>"
    by (simp add: turned_def corner_destroyer_def generate_positions_def numeral_3_eq_3)
  have i: "Ship_init Destroyer (1, 1) UP (0, 10) (0, 10) = Inr corner_destroyer"
    by (simp add: Ship_init_def update_positions_def in_bounds_def generate_positions_def
                  pos_in_bounds_def Let_def numeral_3_eq_3 corner_destroyer_def)
  have p: "positions top_row_destroyer = generate_positions (1, 5) RIGHT 3"
    by (simp add: top_row_destroyer_def generate_positions_def numeral_3_eq_3)
  show ?thesis
    unfolding t c using td cd i p
    by (simp add: top_row_destroyer_fits corner_destroyer_fits)
       (simp add: top_row_destroyer_def corner_destroyer_def)
qed

section \<open>The invariant of a ship\<close>

lemma size_of_pos [simp]: "0 < size_of t"
  by (cases t) simp_all

lemma check_hit_from_frame:
  "check_hit_from ps k s hp m = Inr (s1, h) \<Longrightarrow>
   \<exists>hs. s1 = s\<lparr>hits := hs\<rparr> \<and> length hs = length (hits s)"
proof (induction ps arbitrary: k)
  case Nil
  then have "s1 = s\<lparr>hits := hits s\<rparr>" by simp
  then show ?case by blast
next
  case (Cons p ps)
  show ?case
  proof (cases "p = hp")
    case False
    with Cons show ?thesis by simp
  next
    case True
    with Cons.prems have "s1 = s\<lparr>hits := (hits s)[k := m]\<rparr>"
      by (auto simp: Let_def split: if_splits)
    moreover have "length ((hits s)[k := m]) = length (hits s)" by simp
    ultimately show ?thesis by blast
  qed
qed

lemma Ship_check_hit_frame:
  "Ship_check_hit s hp m = Inr (s1, h) \<Longrightarrow>
   \<exists>hs. s1 = s\<lparr>hits := hs\<rparr> \<and> length hs = length (hits s)"
  unfolding Ship_check_hit_def by (rule check_hit_from_frame)

lemma Ship_init_eq:
  "Ship_init t p d by bx =
     Inr (\<lparr>ship_type = t, ship_size = size_of t, hits = replicate (size_of t) False,
           start_pos = p, rotation = d, bounds_y = by, bounds_x = bx,
           positions =
             (if orientation_fits
                   \<lparr>ship_type = t, ship_size = size_of t, hits = replicate (size_of t) False,
                    start_pos = p, rotation = d, bounds_y = by, bounds_x = bx, positions = []\<rparr> d
              then generate_positions p d (size_of t) else [])\<rparr>)"
  by (simp add: Ship_init_def update_positions_eq orientation_fits_def orientation_test_def)

text \<open>What every operation of a ship keeps.\<close>

lemma Ship_lifetime_inv:
  "Ship_lifetime s \<Longrightarrow>
   0 < ship_size s \<and> length (hits s) = ship_size s
   \<and> positions s = generate_positions (start_pos s) (rotation s) (ship_size s)"
proof (induction rule: Ship_lifetime.induct)
  case (constructed t p d "by" bx s)
  then show ?case
    by (auto simp: Ship_init_eq orientation_fits_def orientation_test_def in_bounds_def
             split: if_splits)
next
  case (moved s d s1)
  then have sz: "0 < ship_size s" by simp
  from moved show ?case
    by (auto simp: move_def update_positions_eq[OF sz] split: if_splits)
next
  case (rotated s s1)
  then have sz: "0 < ship_size s" by simp
  from rotated obtain d where "s1 = turned s d" by (auto simp: rotate_eq[OF sz])
  with rotated show ?case by simp
next
  case (checked s hp m s1 h)
  from Ship_check_hit_frame[OF checked(2)] checked(3) show ?case by auto
qed

lemma orientation_fits_record:
  "orientation_fits \<lparr>ship_type = t, ship_size = n, hits = h, start_pos = p, rotation = r,
                     bounds_y = by, bounds_x = bx, positions = ps\<rparr> d
   = (n \<noteq> 0 \<and> pos_in_bounds (hd (generate_positions p d n)) by bx
      \<and> pos_in_bounds (last (generate_positions p d n)) by bx)"
  by (auto simp: orientation_fits_def orientation_test_def in_bounds_def)

lemma Ship_init_positions:
  "\<exists>s0. Ship_init t p d by bx = Inr s0 \<and> start_pos s0 = p \<and> rotation s0 = d
        \<and> ship_size s0 = size_of t
        \<and> (orientation_fits s0 d \<longrightarrow> positions s0 = generate_positions p d (size_of t))
        \<and> (\<not> orientation_fits s0 d \<longrightarrow> positions s0 = [])"
  by (simp add: Ship_init_eq orientation_fits_record)

text \<open>
  C6, as amended. A ship constructed at a placement that passes the bounds test has, then
  and after every \<open>move\<close>, \<open>rotate\<close> and \<open>check_hit\<close> that returns, exactly \<open>ship_size\<close>
  positions, those generated from its start position and rotation, and exactly
  \<open>ship_size\<close> damage flags. The constructor returns for every placement, and the fresh
  ship has \<open>size_of\<close> its type as size, as many damage flags, all false, and the start
  position and rotation it was given. When the placement passes the bounds test its
  positions are those generated from it; when the placement fails the test it has no
  positions, fewer than its size.
\<close>

theorem Ship_lifetime_sizes:
  "(Ship_lifetime s \<longrightarrow>
      length (positions s) = ship_size s
      \<and> positions s = generate_positions (start_pos s) (rotation s) (ship_size s)
      \<and> length (hits s) = ship_size s)
   \<and> (\<exists>s0. Ship_init t p d by bx = Inr s0 \<and> ship_size s0 = size_of t
          \<and> hits s0 = replicate (ship_size s0) False \<and> length (hits s0) = ship_size s0
          \<and> start_pos s0 = p \<and> rotation s0 = d
          \<and> (orientation_fits s0 d \<longrightarrow>
                Ship_lifetime s0 \<and> positions s0 = generate_positions p d (ship_size s0))
          \<and> (\<not> orientation_fits s0 d \<longrightarrow>
                positions s0 = [] \<and> length (positions s0) \<noteq> ship_size s0))"
proof (intro conjI impI)
  assume "Ship_lifetime s"
  then have i: "0 < ship_size s \<and> length (hits s) = ship_size s
     \<and> positions s = generate_positions (start_pos s) (rotation s) (ship_size s)"
    by (rule Ship_lifetime_inv)
  then show "positions s = generate_positions (start_pos s) (rotation s) (ship_size s)"
    and "length (hits s) = ship_size s" by simp_all
  from i have "length (positions s)
      = length (generate_positions (start_pos s) (rotation s) (ship_size s))"
    by simp
  then show "length (positions s) = ship_size s" by simp
next
  from Ship_init_positions[of t p d "by" bx] obtain s0 where
    i: "Ship_init t p d by bx = Inr s0" and f: "start_pos s0 = p" "rotation s0 = d"
    and z: "ship_size s0 = size_of t"
    and g: "orientation_fits s0 d \<longrightarrow> positions s0 = generate_positions p d (size_of t)"
    and e: "\<not> orientation_fits s0 d \<longrightarrow> positions s0 = []" by blast
  from i have h: "hits s0 = replicate (ship_size s0) False" "length (hits s0) = ship_size s0"
    by (auto simp: Ship_init_eq)
  have l: "orientation_fits s0 d \<longrightarrow> Ship_lifetime s0" using i by (auto intro: constructed)
  have n: "\<not> orientation_fits s0 d \<longrightarrow> length (positions s0) \<noteq> ship_size s0"
    using e z by auto
  from i z h f g e l n
  show "\<exists>s0. Ship_init t p d by bx = Inr s0 \<and> ship_size s0 = size_of t
          \<and> hits s0 = replicate (ship_size s0) False \<and> length (hits s0) = ship_size s0
          \<and> start_pos s0 = p \<and> rotation s0 = d
          \<and> (orientation_fits s0 d \<longrightarrow>
                Ship_lifetime s0 \<and> positions s0 = generate_positions p d (ship_size s0))
          \<and> (\<not> orientation_fits s0 d \<longrightarrow>
                positions s0 = [] \<and> length (positions s0) \<noteq> ship_size s0)"
    by auto
qed

lemma scenario_destroyer_init:
  "Ship_init Destroyer (5, 5) RIGHT (0, 10) (0, 10)
     = Inr (scenario_destroyer [False, False, False])"
  by (simp add: Ship_init_def update_positions_def in_bounds_def generate_positions_def
                pos_in_bounds_def Let_def numeral_3_eq_3 scenario_destroyer_def)

lemma outside_destroyer_init:
  "Ship_init Destroyer (0, 0) RIGHT (0, 10) (0, 10) = Inr outside_destroyer"
  by (simp add: Ship_init_def update_positions_def in_bounds_def generate_positions_def
                pos_in_bounds_def Let_def numeral_3_eq_3 outside_destroyer_def)

text \<open>
  The destroyer of the scenario, constructed and then hit at (5, 6); and a destroyer
  constructed outside the board.
\<close>

theorem Ship_lifetime_sizes_witness:
  "Ship_init Destroyer (5, 5) RIGHT (0, 10) (0, 10)
     = Inr (scenario_destroyer [False, False, False])
   \<and> Ship_check_hit (scenario_destroyer [False, False, False]) (5, 6) True
     = Inr (scenario_destroyer [False, True, False], Hit_hit (5, 6))
   \<and> Ship_lifetime (scenario_destroyer [False, True, False])
   \<and> length (positions (scenario_destroyer [False, True, False])) = 3
   \<and> positions (scenario_destroyer [False, True, False]) = generate_positions (5, 5) RIGHT 3
   \<and> length (hits (scenario_destroyer [False, True, False])) = 3
   \<and> hits (scenario_destroyer [False, False, False]) = replicate 3 False
   \<and> orientation_fits (scenario_destroyer [False, False, False]) RIGHT
   \<and> Ship_init Destroyer (0, 0) RIGHT (0, 10) (0, 10) = Inr outside_destroyer
   \<and> \<not> orientation_fits outside_destroyer RIGHT
   \<and> positions outside_destroyer = []"
proof -
  have c: "Ship_check_hit (scenario_destroyer [False, False, False]) (5, 6) True
     = Inr (scenario_destroyer [False, True, False], Hit_hit (5, 6))"
    by (simp add: scenario_destroyer_def Ship_check_hit_def)
  have "Ship_lifetime (scenario_destroyer [False, False, False])"
    using scenario_destroyer_init scenario_destroyer_fits by (rule constructed)
  then have l: "Ship_lifetime (scenario_destroyer [False, True, False])"
    using c by (rule checked)
  from Ship_lifetime_sizes[of "scenario_destroyer [False, True, False]"
         Destroyer "(5, 5)" RIGHT "(0, 10)" "(0, 10)"] l scenario_destroyer_init
  have a: "length (positions (scenario_destroyer [False, True, False])) = 3
   \<and> positions (scenario_destroyer [False, True, False]) = generate_positions (5, 5) RIGHT 3
   \<and> length (hits (scenario_destroyer [False, True, False])) = 3
   \<and> hits (scenario_destroyer [False, False, False]) = replicate 3 False"
    by (simp add: scenario_destroyer_def)
  have nf: "\<not> orientation_fits outside_destroyer RIGHT"
    by (simp add: orientation_fits_def outside_destroyer_test)
  from Ship_lifetime_sizes[of "scenario_destroyer [False, True, False]"
         Destroyer "(0, 0)" RIGHT "(0, 10)" "(0, 10)"] outside_destroyer_init nf
  have b: "positions outside_destroyer = []" by simp
  from scenario_destroyer_init c l a scenario_destroyer_fits[of "[False, False, False]" RIGHT]
    outside_destroyer_init nf b
  show ?thesis by blast
qed

text \<open>
  C6 as stated fails: a destroyer constructed outside the board has no positions, and
  size 3.
\<close>

theorem Ship_init_outside_counterexample:
  "Ship_init Destroyer (0, 0) RIGHT (0, 10) (0, 10) = Inr outside_destroyer
   \<and> positions outside_destroyer = []
   \<and> ship_size outside_destroyer = 3
   \<and> length (positions outside_destroyer) \<noteq> ship_size outside_destroyer"
  by (simp add: Ship_init_def update_positions_def in_bounds_def generate_positions_def
                pos_in_bounds_def Let_def numeral_3_eq_3 outside_destroyer_def)

text \<open>
  The ships that the engine constructs in \<^verbatim>\<open>__place_ship_loop\<close>, at the centre of the
  player's board and facing right, pass the bounds test, whatever the window.
\<close>

lemma Manager_default_ship:
  "\<exists>s0. Ship_init t (player_board_center (Manager_initialize wc a)) RIGHT
            (player_bounds_y (Manager_initialize wc a))
            (player_bounds_x (Manager_initialize wc a)) = Inr s0
        \<and> orientation_fits s0 RIGHT"
  by (cases t)
     (simp_all add: Manager_initialize_def Ship_init_eq orientation_fits_def orientation_test_def
        in_bounds_def generate_positions_def pos_in_bounds_def Let_def eval_nat_numeral)

section \<open>The random-missiles AI\<close>

lemma zip_replicate_fst: "q \<in> set (zip (replicate n i) js) \<Longrightarrow> fst q = i"
  by (auto simp: set_zip)

lemma distinct_zip_replicate: "distinct js \<Longrightarrow> distinct (zip (replicate n i) js)"
  by (simp add: distinct_zipI2)

lemma distinct_rows:
  "distinct rows \<Longrightarrow> distinct js \<Longrightarrow>
   distinct (concat (map (\<lambda>i. zip (replicate n i) js) rows))"
proof (induction rows)
  case Nil
  then show ?case by simp
next
  case (Cons i rows)
  have "set (zip (replicate n i) js) \<inter> set (concat (map (\<lambda>i. zip (replicate n i) js) rows)) = {}"
  proof (rule ccontr)
    assume "\<not> ?thesis"
    then obtain q where q: "q \<in> set (zip (replicate n i) js)"
      and "q \<in> set (concat (map (\<lambda>i. zip (replicate n i) js) rows))" by blast
    then obtain j where j: "j \<in> set rows" "q \<in> set (zip (replicate n j) js)" by auto
    from zip_replicate_fst[OF q] zip_replicate_fst[OF j(2)] have "i = j" by simp
    with j(1) Cons.prems(1) show False by simp
  qed
  with Cons show ?case by (simp add: distinct_zip_replicate)
qed

lemma initialize_distinct:
  "distinct (possible_moves (initialize (get_ai CopyCatWithRandomMissiles) by bx))"
  by (simp add: distinct_rows)

text \<open>
  When the left bound of the board is at least -1, as on a screen, the moves that
  \<open>initialize\<close> computes are the cells strictly inside the player's bounds.
\<close>

lemma initialize_cells:
  assumes "- 1 \<le> fst bx"
  shows "set (possible_moves (initialize (get_ai CopyCatWithRandomMissiles) by bx))
         = {p. pos_in_bounds p by bx}"
proof -
  have len: "length [fst bx + 1..snd bx - 1] \<le> nat (snd bx)" using assms by simp
  have z: "\<And>i. set (zip (replicate (nat (snd bx)) i) [fst bx + 1..snd bx - 1])
            = {i} \<times> {fst bx + 1..snd bx - 1}"
  proof -
    fix i
    have "zip (replicate (nat (snd bx)) i) [fst bx + 1..snd bx - 1]
          = map (\<lambda>x. (i, x)) [fst bx + 1..snd bx - 1]"
      using len by (auto intro!: nth_equalityI)
    then show "set (zip (replicate (nat (snd bx)) i) [fst bx + 1..snd bx - 1])
            = {i} \<times> {fst bx + 1..snd bx - 1}" by auto
  qed
  show ?thesis by (auto simp: z pos_in_bounds_def)
qed

lemma send_moves_mset:
  "draws_in_range (length pm) rs \<Longrightarrow>
   \<exists>cells rest. send_moves (CopyCatWithRandomMissilesAI f pm) rs
        = Inr (map Some cells, CopyCatWithRandomMissilesAI f rest)
      \<and> mset cells + mset rest = mset pm \<and> length cells = length rs"
proof (induction rs arbitrary: pm)
  case Nil
  have "send_moves (CopyCatWithRandomMissilesAI f pm) []
        = Inr (map Some [], CopyCatWithRandomMissilesAI f pm) \<and> mset [] + mset pm = mset pm
          \<and> length ([]::pos list) = length ([]::nat list)" by simp
  then show ?case by blast
next
  case (Cons r rs)
  then have r: "r < length pm" and d: "draws_in_range (length pm - 1) rs" by simp_all
  let ?pm1 = "take r pm @ drop (Suc r) pm"
  have l: "length ?pm1 = length pm - 1" using r by simp
  from Cons.IH[of ?pm1] d l obtain cells rest where
    s: "send_moves (CopyCatWithRandomMissilesAI f ?pm1) rs
        = Inr (map Some cells, CopyCatWithRandomMissilesAI f rest)"
    and m: "mset cells + mset rest = mset ?pm1" and n: "length cells = length rs" by auto
  have "pm = take r pm @ pm ! r # drop (Suc r) pm" using r by (rule id_take_nth_drop)
  then have "mset pm = mset (take r pm @ pm ! r # drop (Suc r) pm)" by simp
  then have pm: "mset pm = add_mset (pm ! r) (mset ?pm1)" by simp
  have "send_moves (CopyCatWithRandomMissilesAI f pm) (r # rs)
        = Inr (map Some (pm ! r # cells), CopyCatWithRandomMissilesAI f rest)"
    using r s by auto
  moreover have "mset (pm ! r # cells) + mset rest = mset pm" using m pm by simp
  moreover have "length (pm ! r # cells) = length (r # rs)" using n by simp
  ultimately show ?case by blast
qed

text \<open>
  C8. For the random-missiles AI after \<open>initialize\<close>, whatever its fleet: successive calls
  of \<open>send_move\<close>, each with a value that \<^verbatim>\<open>randint\<close> can return (so there are at most as
  many calls as cells), all return, and return cells of the initial list, no cell twice;
  the cells returned and the cells that remain make up the initial list. After as many
  calls as there are cells, nothing remains and every cell has been returned exactly once.
  When the left bound of the player's board is at least -1, the initial list holds
  exactly the legal cells, those strictly inside the player's bounds, each once: every
  cell returned is legal, and after as many calls as there are legal cells every legal
  cell has been returned.
\<close>

theorem send_moves_cover_without_repeats:
  assumes "draws_in_range
             (length (possible_moves (initialize (get_ai CopyCatWithRandomMissiles) by bx))) rs"
  shows "\<exists>cells rest.
           send_moves (CopyCatWithRandomMissilesAI f
               (possible_moves (initialize (get_ai CopyCatWithRandomMissiles) by bx))) rs
             = Inr (map Some cells, CopyCatWithRandomMissilesAI f rest)
         \<and> length cells = length rs
         \<and> distinct cells
         \<and> mset cells + mset rest
             = mset (possible_moves (initialize (get_ai CopyCatWithRandomMissiles) by bx))
         \<and> (length rs = length (possible_moves (initialize (get_ai CopyCatWithRandomMissiles) by bx))
              \<longrightarrow> rest = []
                \<and> mset cells
                    = mset (possible_moves (initialize (get_ai CopyCatWithRandomMissiles) by bx)))
         \<and> (- 1 \<le> fst bx \<longrightarrow>
               set (possible_moves (initialize (get_ai CopyCatWithRandomMissiles) by bx))
                 = {p. pos_in_bounds p by bx}
             \<and> length (possible_moves (initialize (get_ai CopyCatWithRandomMissiles) by bx))
                 = card {p. pos_in_bounds p by bx}
             \<and> set cells \<subseteq> {p. pos_in_bounds p by bx}
             \<and> (length rs = card {p. pos_in_bounds p by bx} \<longrightarrow>
                   rest = [] \<and> set cells = {p. pos_in_bounds p by bx}))"
proof -
  let ?pm = "possible_moves (initialize (get_ai CopyCatWithRandomMissiles) by bx)"
  from send_moves_mset[OF assms, of f] obtain cells rest where
    s: "send_moves (CopyCatWithRandomMissilesAI f ?pm) rs
        = Inr (map Some cells, CopyCatWithRandomMissilesAI f rest)"
    and m: "mset cells + mset rest = mset ?pm" and n: "length cells = length rs" by blast
  from m have "mset (cells @ rest) = mset ?pm" by simp
  then have "distinct (cells @ rest)"
    using initialize_distinct[of "by" bx] by (metis mset_eq_imp_distinct_iff)
  then have dc: "distinct cells" by simp
  have full: "length rs = length ?pm \<longrightarrow> rest = [] \<and> mset cells = mset ?pm"
  proof
    assume e: "length rs = length ?pm"
    from m have "size (mset cells + mset rest) = size (mset ?pm)" by simp
    then have "length cells + length rest = length ?pm" by simp
    with n e have "rest = []" by simp
    with m show "rest = [] \<and> mset cells = mset ?pm" by simp
  qed
  have sub: "set cells \<subseteq> set ?pm"
  proof -
    from m have "set_mset (mset cells + mset rest) = set_mset (mset ?pm)" by simp
    then show ?thesis by auto
  qed
  have legal: "- 1 \<le> fst bx \<longrightarrow>
               set ?pm = {p. pos_in_bounds p by bx}
             \<and> length ?pm = card {p. pos_in_bounds p by bx}
             \<and> set cells \<subseteq> {p. pos_in_bounds p by bx}
             \<and> (length rs = card {p. pos_in_bounds p by bx} \<longrightarrow>
                   rest = [] \<and> set cells = {p. pos_in_bounds p by bx})"
  proof
    assume b: "- 1 \<le> fst bx"
    then have e: "set ?pm = {p. pos_in_bounds p by bx}" by (rule initialize_cells)
    have c: "length ?pm = card {p. pos_in_bounds p by bx}"
      using distinct_card[OF initialize_distinct[of "by" bx]] e by simp
    have f: "length rs = card {p. pos_in_bounds p by bx} \<longrightarrow>
                   rest = [] \<and> set cells = {p. pos_in_bounds p by bx}"
    proof
      assume "length rs = card {p. pos_in_bounds p by bx}"
      with c full have r: "rest = []" and "mset cells = mset ?pm" by simp_all
      then have "set cells = set ?pm" by (metis set_mset_mset)
      with r e show "rest = [] \<and> set cells = {p. pos_in_bounds p by bx}" by simp
    qed
    from e c sub f show "set ?pm = {p. pos_in_bounds p by bx}
             \<and> length ?pm = card {p. pos_in_bounds p by bx}
             \<and> set cells \<subseteq> {p. pos_in_bounds p by bx}
             \<and> (length rs = card {p. pos_in_bounds p by bx} \<longrightarrow>
                   rest = [] \<and> set cells = {p. pos_in_bounds p by bx})" by simp
  qed
  from s n dc m full legal show ?thesis by blast
qed


text \<open>An incoming shot between two calls leaves the remaining moves as they are.\<close>

lemma get_move_possible_moves:
  "get_move (CopyCatWithRandomMissilesAI f pm) mv = Inr (a1, h) \<Longrightarrow> possible_moves a1 = pm"
  by (auto simp: AI_get_move_def split: option.splits sum.splits)

lemma small_board_moves:
  "possible_moves (initialize (get_ai CopyCatWithRandomMissiles) (0, 3) (0, 3))
     = [(1, 1), (1, 2), (2, 1), (2, 2)]"
  by code_simp

text \<open>
  In the engine the AI's list is the one of \<open>initialize\<close> for the player's bounds, and the
  left bound is the centre column of the window less 20: at least -1 when the centre
  column is at least 19. \<^verbatim>\<open>__set_bounds\<close> waits until the window is at least 85 columns
  wide, so the centre column is at least 42.
\<close>

lemma Manager_initialize_moves:
  "ai (Manager_initialize wc CopyCatWithRandomMissiles)
     = CopyCatWithRandomMissilesAI None
         (possible_moves (initialize (get_ai CopyCatWithRandomMissiles)
            (player_bounds_y (Manager_initialize wc CopyCatWithRandomMissiles))
            (player_bounds_x (Manager_initialize wc CopyCatWithRandomMissiles))))"
  "19 \<le> snd wc \<Longrightarrow> - 1 \<le> fst (player_bounds_x (Manager_initialize wc t))"
  by (simp_all add: Manager_initialize_def Let_def)

text \<open>A board with four cells, emptied by four calls.\<close>

theorem send_moves_cover_without_repeats_witness:
  "possible_moves (initialize (get_ai CopyCatWithRandomMissiles) (0, 3) (0, 3))
     = [(1, 1), (1, 2), (2, 1), (2, 2)]
   \<and> draws_in_range 4 [3, 0, 1, 0]
   \<and> - 1 \<le> fst (0 :: int, 3 :: int)
   \<and> send_moves (CopyCatWithRandomMissilesAI None [(1, 1), (1, 2), (2, 1), (2, 2)]) [3, 0, 1, 0]
       = Inr ([Some (2, 2), Some (1, 1), Some (2, 1), Some (1, 2)],
              CopyCatWithRandomMissilesAI None [])
   \<and> distinct [(2, 2), (1, 1), (2, 1), (1 :: int, 2 :: int)]
   \<and> card {p. pos_in_bounds p (0, 3) (0, 3)} = 4
   \<and> set [(2, 2), (1, 1), (2, 1), (1, 2)] = {p. pos_in_bounds p (0, 3) (0, 3)}"
proof -
  have d: "draws_in_range 4 [3, 0, 1, 0]" by simp
  then have d': "draws_in_range
      (length (possible_moves (initialize (get_ai CopyCatWithRandomMissiles) (0, 3) (0, 3))))
      [3, 0, 1, 0]"
    by (simp only: small_board_moves) simp
  have b: "- 1 \<le> fst (0 :: int, 3 :: int)" by simp
  have e: "send_moves (CopyCatWithRandomMissilesAI None [(1, 1), (1, 2), (2, 1), (2, 2)])
             [3, 0, 1, 0]
       = Inr ([Some (2, 2), Some (1, 1), Some (2, 1), Some (1, 2)],
              CopyCatWithRandomMissilesAI None [])"
    by (simp add: numeral_3_eq_3)
  from send_moves_cover_without_repeats[OF d', of None] b obtain cells rest where
    s: "send_moves (CopyCatWithRandomMissilesAI None
             (possible_moves (initialize (get_ai CopyCatWithRandomMissiles) (0, 3) (0, 3))))
           [3, 0, 1, 0]
         = Inr (map Some cells, CopyCatWithRandomMissilesAI None rest)"
    and dc: "distinct cells"
    and c: "length (possible_moves (initialize (get_ai CopyCatWithRandomMissiles) (0, 3) (0, 3)))
              = card {p. pos_in_bounds p (0, 3) (0, 3)}"
    and f: "length [3, 0, 1, 0 :: nat] = card {p. pos_in_bounds p (0, 3) (0, 3)} \<longrightarrow>
              rest = [] \<and> set cells = {p. pos_in_bounds p (0, 3) (0, 3)}"
    by blast
  from c have c4: "card {p. pos_in_bounds p (0, 3) (0, 3)} = 4"
    by (simp only: small_board_moves) simp
  from s e have "map Some cells = [Some (2, 2), Some (1, 1), Some (2, 1), Some (1, 2)]"
    by (simp only: small_board_moves) simp
  then have ce: "cells = [(2, 2), (1, 1), (2, 1), (1, 2)]" by auto
  with dc have di: "distinct [(2, 2), (1, 1), (2, 1), (1 :: int, 2 :: int)]" by simp
  from f c4 ce have st: "set [(2, 2), (1, 1), (2, 1), (1, 2)] = {p. pos_in_bounds p (0, 3) (0, 3)}"
    by simp
  from small_board_moves d b e di c4 st show ?thesis by blast
qed

section \<open>The copycat AI\<close>

lemma Fleet_check_hit_wf:
  "Fleet_check_hit fl hp m = Inr (fl1, h) \<Longrightarrow>
   \<forall>t\<in>set fl. length (positions t) \<le> length (hits t) \<Longrightarrow>
   \<forall>t\<in>set fl1. length (positions t) \<le> length (hits t)"
proof (induction fl arbitrary: fl1 h)
  case Nil
  then show ?case by simp
next
  case (Cons a fl)
  from Cons.prems(1) obtain a1 h1 where a: "Ship_check_hit a hp m = Inr (a1, h1)"
    by (auto split: sum.splits)
  from Ship_check_hit_frame[OF a] Cons.prems(2)
  have a1: "length (positions a1) \<le> length (hits a1)" by auto
  show ?case
  proof (cases "hit_type h1 = MISS")
    case False
    with Cons.prems a have "fl1 = a1 # fl" by simp
    with a1 Cons.prems(2) show ?thesis by simp
  next
    case True
    with Cons.prems(1) a obtain fl2 where f: "Fleet_check_hit fl hp m = Inr (fl2, h)"
      and e: "fl1 = a1 # fl2" by (auto split: sum.splits)
    from Cons.IH[OF f] Cons.prems(2) a1 e show ?thesis by simp
  qed
qed

lemma Fleet_check_hit_returns:
  assumes "\<forall>t\<in>set fl. length (positions t) \<le> length (hits t)"
  shows "\<exists>fl1 h. Fleet_check_hit fl hp m = Inr (fl1, h)
           \<and> (\<forall>t\<in>set fl1. length (positions t) \<le> length (hits t))"
proof -
  from Fleet_check_hit_cases[OF assms, of hp m]
  have "\<exists>fl1 h. Fleet_check_hit fl hp m = Inr (fl1, h)"
  proof
    assume "\<forall>t\<in>set fl. Ship_check_hit t hp m = Inr (t, Hit_miss hp)"
    then show ?thesis using Fleet_check_hit_all_miss by blast
  next
    assume "\<exists>pre s post s1 h. fl = pre @ s # post
        \<and> (\<forall>t\<in>set pre. Ship_check_hit t hp m = Inr (t, Hit_miss hp))
        \<and> Ship_check_hit s hp m = Inr (s1, h) \<and> hit_type h \<noteq> MISS"
    then show ?thesis using Fleet_check_hit_first by blast
  qed
  then show ?thesis using Fleet_check_hit_wf[OF _ assms] by blast
qed

lemma CopyCat_get_move:
  assumes "\<forall>t\<in>set fl. length (positions t) \<le> length (hits t)"
  shows "\<exists>fl1 h. get_move (CopyCatAI (Some fl) l) mv = Inr (CopyCatAI (Some fl1) (Some mv), h)
           \<and> (\<forall>t\<in>set fl1. length (positions t) \<le> length (hits t))"
  using Fleet_check_hit_returns[OF assms, of mv True] by (auto simp: AI_get_move_def)

lemma CopyCat_alternate:
  "\<forall>t\<in>set fl. length (positions t) \<le> length (hits t) \<Longrightarrow>
   \<exists>fl1 l1. alternate_moves (CopyCatAI (Some fl) l) inputs
       = Inr (map (\<lambda>(mv, r). Some mv) inputs, CopyCatAI (Some fl1) l1)"
proof (induction inputs arbitrary: fl l)
  case Nil
  then show ?case by simp
next
  case (Cons inp inputs)
  obtain mv r where inp: "inp = (mv, r)" by (cases inp)
  from CopyCat_get_move[OF Cons.prems, of l mv] obtain fl1 h where
    g: "get_move (CopyCatAI (Some fl) l) mv = Inr (CopyCatAI (Some fl1) (Some mv), h)"
    and w: "\<forall>t\<in>set fl1. length (positions t) \<le> length (hits t)" by blast
  from Cons.IH[OF w, of "Some mv"] obtain fl2 l2 where
    "alternate_moves (CopyCatAI (Some fl1) (Some mv)) inputs
       = Inr (map (\<lambda>(mv, r). Some mv) inputs, CopyCatAI (Some fl2) l2)" by blast
  with g inp have "alternate_moves (CopyCatAI (Some fl) l) (inp # inputs)
       = Inr (map (\<lambda>(mv, r). Some mv) (inp # inputs), CopyCatAI (Some fl2) l2)" by simp
  then show ?case by blast
qed

lemma fire_missile_CopyCat:
  assumes "ai m = CopyCatAI (Some fl) l"
    and "\<forall>t\<in>set fl. length (positions t) \<le> length (hits t)"
  shows "\<exists>m1 fl1. fire_missile m target_pos = Inr m1
           \<and> ai m1 = CopyCatAI (Some fl1) (Some (offset_target_pos m target_pos))"
proof -
  from CopyCat_get_move[OF assms(2), of l "offset_target_pos m target_pos"] obtain fl1 h where
    g: "get_move (ai m) (offset_target_pos m target_pos)
          = Inr (CopyCatAI (Some fl1) (Some (offset_target_pos m target_pos)), h)"
    using assms(1) by auto
  show ?thesis
    by (cases "hit_type h = SUNK")
       (simp_all add: fire_missile_def g Let_def check_game_over_def reveal_sunk_ship_def)
qed

text \<open>
  C9. For the copycat AI with a fleet whose ships each have a damage flag for every
  position: when \<open>get_move\<close> and \<open>send_move\<close> alternate, all calls return, and the
  positions that \<open>send_move\<close> returns are, in order, the positions given to \<open>get_move\<close>.
  The position that \<open>fire_missile\<close> gives to \<open>get_move\<close> is the player's target moved from
  the opponent's board to the player's, and the next \<open>send_move\<close> returns it.
\<close>

theorem CopyCat_replays_shots:
  assumes "\<forall>t\<in>set fl. length (positions t) \<le> length (hits t)"
  shows "(\<exists>a1. alternate_moves (CopyCatAI (Some fl) l) inputs
                 = Inr (map (\<lambda>(mv, r). Some mv) inputs, a1))
       \<and> (ai m = CopyCatAI (Some fl) l \<longrightarrow>
            (\<exists>m1. fire_missile m target_pos = Inr m1
               \<and> send_move (ai m1) r
                   = Inr (Some (fst target_pos,
                                snd (player_board_center m)
                                  - (snd (opponent_board_center m) - snd target_pos)),
                          ai m1)))"
proof (intro conjI impI)
  show "\<exists>a1. alternate_moves (CopyCatAI (Some fl) l) inputs
                 = Inr (map (\<lambda>(mv, r). Some mv) inputs, a1)"
    using CopyCat_alternate[OF assms, of l inputs] by blast
next
  assume "ai m = CopyCatAI (Some fl) l"
  from fire_missile_CopyCat[OF this assms, of target_pos] obtain m1 fl1 where
    "fire_missile m target_pos = Inr m1"
    "ai m1 = CopyCatAI (Some fl1) (Some (offset_target_pos m target_pos))" by blast
  then have "fire_missile m target_pos = Inr m1
               \<and> send_move (ai m1) r
                   = Inr (Some (fst target_pos,
                                snd (player_board_center m)
                                  - (snd (opponent_board_center m) - snd target_pos)),
                          ai m1)"
    by (simp add: offset_target_pos_def Let_def)
  then show "\<exists>m1. fire_missile m target_pos = Inr m1
               \<and> send_move (ai m1) r
                   = Inr (Some (fst target_pos,
                                snd (player_board_center m)
                                  - (snd (opponent_board_center m) - snd target_pos)),
                          ai m1)" by blast
qed

lemma game_fleet_flags: "\<forall>t\<in>set game_fleet. length (positions t) \<le> length (hits t)"
  by (simp add: game_fleet_def placed_ship_def)

lemma game_start_CopyCat:
  "ai (game_start CopyCat) = CopyCatAI (Some game_fleet) None"
  "player_board_center (game_start CopyCat) = (15, 32)"
  "opponent_board_center (game_start CopyCat) = (15, 52)"
  by (simp_all add: game_start_def ready_def Manager_initialize_def Let_def)

text \<open>
  Two shots on the fleet of the game; and the first shot of a game, at (6, 43) on the
  opponent's board, which the AI returns as (6, 23).
\<close>

theorem CopyCat_replays_shots_witness:
  "list_all (\<lambda>t. length (positions t) \<le> length (hits t)) game_fleet
   \<and> (\<exists>a1. alternate_moves (CopyCatAI (Some game_fleet) None) [((6, 23), 0), ((20, 30), 0)]
             = Inr ([Some (6, 23), Some (20, 30)], a1))
   \<and> ai (game_start CopyCat) = CopyCatAI (Some game_fleet) None
   \<and> (\<exists>m1. fire_missile (game_start CopyCat) (6, 43) = Inr m1
          \<and> send_move (ai m1) 0 = Inr (Some (6, 23), ai m1))"
proof -
  have w: "list_all (\<lambda>t. length (positions t) \<le> length (hits t)) game_fleet"
    using game_fleet_flags by (simp add: list_all_iff)
  note t = CopyCat_replays_shots[OF game_fleet_flags,
             of None "[((6, 23), 0), ((20, 30), 0)]" "game_start CopyCat" "(6, 43)" 0]
  from t have a: "\<exists>a1. alternate_moves (CopyCatAI (Some game_fleet) None)
                        [((6, 23), 0), ((20, 30), 0)]
             = Inr ([Some (6, 23), Some (20, 30)], a1)" by simp
  from t have b: "\<exists>m1. fire_missile (game_start CopyCat) (6, 43) = Inr m1
          \<and> send_move (ai m1) 0 = Inr (Some (6, 23), ai m1)"
    by (simp add: game_start_CopyCat)
  from w a b game_start_CopyCat(1) show ?thesis by blast
qed

section \<open>The end of the game\<close>

lemma check_game_over_frame:
  "player_ships_left (check_game_over m) = player_ships_left m"
  "opponent_ships_left (check_game_over m) = opponent_ships_left m"
  "ai (check_game_over m) = ai m"
  "fleet (check_game_over m) = fleet m"
  by (simp_all add: check_game_over_def)

lemma check_game_over_state:
  "game_state (check_game_over m) =
     (if opponent_ships_left m = 0 then PLAYER_WON
      else if player_ships_left m = 0 then OPPONENT_WON else game_state m)"
  by (simp add: check_game_over_def)

lemma reveal_sunk_ship_frame:
  "player_ships_left (reveal_sunk_ship m h) = player_ships_left m"
  "opponent_ships_left (reveal_sunk_ship m h) = opponent_ships_left m"
  "game_state (reveal_sunk_ship m h) = game_state m"
  "ai (reveal_sunk_ship m h) = ai m"
  "fleet (reveal_sunk_ship m h) = fleet m"
  by (simp_all add: reveal_sunk_ship_def)

lemma fire_missile_player_ships:
  "fire_missile m t = Inr m1 \<Longrightarrow>
   player_ships_left m1 = player_ships_left m
   \<and> (game_state m1 = OPPONENT_WON \<longrightarrow> player_ships_left m = 0 \<or> game_state m = OPPONENT_WON)"
  by (auto simp: fire_missile_def Let_def check_game_over_frame check_game_over_state
                 reveal_sunk_ship_frame split: sum.splits if_splits)

lemma opponents_turn_player_ships:
  "opponents_turn m r = Inr m1 \<Longrightarrow>
   player_ships_left m1 = player_ships_left m
   \<and> (game_state m1 = OPPONENT_WON \<longrightarrow> player_ships_left m = 0 \<or> game_state m = OPPONENT_WON)"
  by (auto simp: opponents_turn_def Let_def check_game_over_frame check_game_over_state
           split: sum.splits option.splits if_splits)

lemma take_turn_player_ships:
  "take_turn m t = Inr m1 \<Longrightarrow>
   player_ships_left m1 = player_ships_left m
   \<and> (game_state m1 = OPPONENT_WON \<longrightarrow> player_ships_left m = 0 \<or> game_state m = OPPONENT_WON)"
  using fire_missile_player_ships by (fastforce simp: take_turn_def split: sum.splits)

text \<open>
  No turn changes \<open>player_ships_left\<close>: \<open>opponents_turn\<close> calls \<open>check_game_over\<close> after a
  ship of the player is sunk, and does not decrement the counter first, as \<open>fire_missile\<close>
  does with \<open>opponent_ships_left\<close>. So a game that starts with ships left never reaches
  \<open>OPPONENT_WON\<close>.
\<close>

lemma play_never_opponent_won:
  "play m inputs = Inr m1 \<Longrightarrow> player_ships_left m \<noteq> 0 \<Longrightarrow> game_state m \<noteq> OPPONENT_WON \<Longrightarrow>
   player_ships_left m1 = player_ships_left m \<and> game_state m1 \<noteq> OPPONENT_WON"
proof (induction m inputs rule: play.induct)
  case (1 m)
  then show ?case by simp
next
  case (2 m target_pos r inputs)
  show ?case
  proof (cases "game_state m = PLAYING")
    case False
    with 2 show ?thesis by simp
  next
    case True
    with 2(2) obtain m2 where
      s: "(if players_turn m then take_turn m target_pos else opponents_turn m r) = Inr m2"
      and p: "play m2 inputs = Inr m1"
      by (auto split: sum.splits)
    from s have k: "player_ships_left m2 = player_ships_left m
       \<and> (game_state m2 = OPPONENT_WON \<longrightarrow> player_ships_left m = 0 \<or> game_state m = OPPONENT_WON)"
      using take_turn_player_ships opponents_turn_player_ships by (auto split: if_splits)
    with 2(3,4) have "player_ships_left m2 \<noteq> 0" "game_state m2 \<noteq> OPPONENT_WON" by auto
    with 2(1)[OF True s p] k show ?thesis by simp
  qed
qed

lemma game_start_counters:
  "player_ships_left (game_start t) = 5" "game_state (game_start t) = PLAYING"
  by (simp_all add: game_start_def ready_def Manager_initialize_def Let_def)

text \<open>The player's side: a sunk ship is counted, and the last one wins the game.\<close>

lemma fire_missile_sunk:
  "get_move (ai m) (offset_target_pos m t) = Inr (a1, h) \<Longrightarrow> hit_type h = SUNK \<Longrightarrow>
   \<exists>m1. fire_missile m t = Inr m1 \<and> opponent_ships_left m1 = opponent_ships_left m - 1
        \<and> (opponent_ships_left m = 1 \<longrightarrow> game_state m1 = PLAYER_WON)"
  by (simp add: fire_missile_def Let_def check_game_over_frame check_game_over_state
                reveal_sunk_ship_frame)

text \<open>
  C3. The claim does not hold of the code. In \<open>losing_game\<close> the AI sinks the five ships of
  the player while the player misses 17 times. At the end every damage flag of the
  player's fleet is true, \<open>player_ships_left\<close> is still 5, and the state is still
  \<open>PLAYING\<close>, not \<open>OPPONENT_WON\<close>.
\<close>

theorem losing_game_never_lost:
  "map_sum id (\<lambda>m. (game_state m, player_ships_left m, opponent_ships_left m,
                       map hits (fleet m), players_turn m))
     (play (game_start CopyCatWithRandomMissiles) losing_game)
   = Inr (PLAYING, 5, 5,
          [[True, True], [True, True, True], [True, True, True], [True, True, True, True],
           [True, True, True, True, True]], True)"
  by code_simp

end
